theory Spec2Isabelle
  imports Main "HOL-Library.Word" "HOL-Library.Char_ord" "HOL-Library.List_Lexorder"
    "HOL-Library.Product_Lexorder"
begin

unbundle bit_operations_syntax

section \<open>Data model (pkg/types, go-ethereum values)\<close>

text \<open>
  \<open>common.Address\<close> is a 20-byte array, \<open>common.Hash\<close> a 32-byte array; both are
  read as big-endian words. Go's \<open>uint64\<close> and \<open>uint\<close> are 64-bit words, \<open>*big.Int\<close>
  is an unbounded \<open>int\<close> (a pointer that may be nil is an \<open>int option\<close>).
\<close>

type_synonym address = "160 word"
type_synonym hash = "256 word"
type_synonym byte = "8 word"
type_synonym u64 = "64 word"
type_synonym u32 = "32 word"

text \<open>
  Every error of the source is built by \<open>fmt.Errorf\<close> with a message and, for \<open>%w\<close>, a
  wrapped error (which is nil when a retry loop ran zero times); the failures of the
  chain node itself are opaque. A run-time panic ends the process, since nothing
  recovers it; the model carries it as the error \<open>Panic\<close>, which stops the tick.
\<close>

datatype error = NodeError string | Errorf string "error option" | Panic string

record Log =
  Log_Address :: address
  Log_Topics :: "hash list"
  Log_Data :: "byte list"
  Log_BlockNumber :: u64
  Log_TxHash :: hash
  Log_Index :: u64

record Swap =
  TxHash :: hash
  BlockNumber :: u64
  LogIndex :: u64
  Pool :: address
  Protocol :: string
  Sender :: address
  Recipient :: address
  Token0 :: address
  Token1 :: address
  Amount0In :: int
  Amount1In :: int
  Amount0Out :: int
  Amount1Out :: int
  SqrtPriceX96 :: "int option"
  Liquidity :: "int option"
  Tick :: "int option"

record Arbitrage =
  Arb_TxHash :: hash
  Arb_BlockNumber :: u64
  Arbitrageur :: address
  Path :: "Swap list"
  TokenStart :: address
  TokenEnd :: address
  AmountIn :: int
  AmountOut :: int
  Profit :: int
  ProfitToken :: address
  GasUsed :: u64
  GasPrice :: "int option"
  NetProfitWei :: "int option"

record V2PoolInfo =
  V2_Token0 :: address
  V2_Token1 :: address

record V3PoolInfo =
  V3_Token0 :: address
  V3_Token1 :: address
  V3_Fee :: u32

section \<open>The chain node and the retrying client (internal/eth)\<close>

text \<open>
  The node behind \<open>ethclient.Client\<close> is outside the repository. It is a parameter: each
  of its five calls answers with an error or a value, and the answer may depend on the
  moment of the call, which is the number of requests the client has sent so far.
  \<open>FilterLogs\<close> receives the block bounds as the \<open>big.Int\<close> the decoders build with
  \<open>big.NewInt(int64(fromBlock))\<close>, and the topic filter.
\<close>

datatype request =
  ReqBlockNumber
  | ReqFilterLogs int int hash
  | ReqCallContract address "byte list"
  | ReqTransactionReceipt hash
  | ReqTransactionByHash hash

record node =
  nodeBlockNumber :: "nat \<Rightarrow> error + u64"
  nodeFilterLogs :: "nat \<Rightarrow> int \<Rightarrow> int \<Rightarrow> hash \<Rightarrow> error + Log list"
  nodeCallContract :: "nat \<Rightarrow> address \<Rightarrow> byte list \<Rightarrow> error + byte list"
  nodeTransactionReceipt :: "nat \<Rightarrow> hash \<Rightarrow> error + u64"
  nodeTransactionByHash :: "nat \<Rightarrow> hash \<Rightarrow> error + int"

text \<open>
  The configuration values the pipeline reads (internal/config), and the text form of an
  address, \<open>common.Address.Hex\<close> of go-ethereum, which is a parameter as well.
\<close>

record config =
  RetryAttempts :: int
  BatchSize :: int
  StartBlock :: u64
  EnableUniswapV2 :: bool
  EnableUniswapV3 :: bool

record env =
  cfg :: config
  chain :: node
  AddressHex :: "address \<Rightarrow> string"

text \<open>
  The mutable state: the requests sent to the node so far (oldest first), the two
  decoders' pool caches, and the findings handed to \<open>Logger.LogArbitrage\<close>.
\<close>

record world =
  trace :: "request list"
  v2PoolCache :: "address \<rightharpoonup> V2PoolInfo"
  v3PoolCache :: "address \<rightharpoonup> V3PoolInfo"
  reported :: "Arbitrage list"

text \<open>
  The retry loop every method of \<open>eth.Client\<close> repeats:
  \<^verbatim>\<open>for i := 0; i < c.cfg.RetryAttempts; i++ { v, err = raw(); if err == nil { return v, nil } ... }
  return zero, fmt.Errorf("failed to ... after %d attempts: %w", c.cfg.RetryAttempts, err)\<close>
  The first argument counts the attempts that are left.
\<close>

fun retryLoop ::
  "nat \<Rightarrow> (nat \<Rightarrow> error + 'a) \<Rightarrow> request \<Rightarrow> string \<Rightarrow> error option \<Rightarrow> world \<Rightarrow> (error + 'a) \<times> world"
where
  "retryLoop 0 raw rq msg err w = (Inl (Errorf msg err), w)"
| "retryLoop (Suc n) raw rq msg err w =
     (case raw (length (trace w)) of
        Inr v \<Rightarrow> (Inr v, w\<lparr>trace := trace w @ [rq]\<rparr>)
      | Inl e \<Rightarrow> retryLoop n raw rq msg (Some e) (w\<lparr>trace := trace w @ [rq]\<rparr>))"

definition Client_BlockNumber :: "env \<Rightarrow> world \<Rightarrow> (error + u64) \<times> world" where
  "Client_BlockNumber e w =
     retryLoop (nat (RetryAttempts (cfg e))) (nodeBlockNumber (chain e)) ReqBlockNumber
       ''failed to get block number'' None w"

definition Client_GetLogs :: "env \<Rightarrow> int \<Rightarrow> int \<Rightarrow> hash \<Rightarrow> world \<Rightarrow> (error + Log list) \<times> world" where
  "Client_GetLogs e fromB toB topic w =
     retryLoop (nat (RetryAttempts (cfg e))) (\<lambda>t. nodeFilterLogs (chain e) t fromB toB topic)
       (ReqFilterLogs fromB toB topic) ''failed to get logs'' None w"

definition Client_TransactionReceipt :: "env \<Rightarrow> hash \<Rightarrow> world \<Rightarrow> (error + u64) \<times> world" where
  "Client_TransactionReceipt e txHash w =
     retryLoop (nat (RetryAttempts (cfg e))) (\<lambda>t. nodeTransactionReceipt (chain e) t txHash)
       (ReqTransactionReceipt txHash) ''failed to get receipt'' None w"

definition Client_GetTransaction :: "env \<Rightarrow> hash \<Rightarrow> world \<Rightarrow> (error + int) \<times> world" where
  "Client_GetTransaction e txHash w =
     retryLoop (nat (RetryAttempts (cfg e))) (\<lambda>t. nodeTransactionByHash (chain e) t txHash)
       (ReqTransactionByHash txHash) ''failed to get transaction'' None w"

definition Client_CallContract :: "env \<Rightarrow> address \<Rightarrow> byte list \<Rightarrow> world \<Rightarrow> (error + byte list) \<times> world" where
  "Client_CallContract e to_addr data w =
     retryLoop (nat (RetryAttempts (cfg e))) (\<lambda>t. nodeCallContract (chain e) t to_addr data)
       (ReqCallContract to_addr data) ''failed to call contract'' None w"

section \<open>Protocol decoders (internal/dex/uniswapv2, internal/dex/uniswapv3)\<close>

definition V2_SwapEventSignature :: hash where
  "V2_SwapEventSignature = 0xd78ad95fa46c994b6551d0da85fc275fe613ce37657fb8d5e3d130840159d822"

definition V3_SwapEventSignature :: hash where
  "V3_SwapEventSignature = 0xc42079f94a6350d7e6235f29174924f928cc2ac818eb64fed8004e115fbcca67"

text \<open>
  \<open>big.Int.SetBytes\<close> reads a byte slice as a big-endian unsigned number; a Go slice
  expression \<open>b[i:j]\<close> within bounds is \<open>take (j - i) (drop i b)\<close>.
\<close>

definition bytesToNat :: "byte list \<Rightarrow> nat" where
  "bytesToNat bs = foldl (\<lambda>acc b. acc * 256 + unat b) 0 bs"

definition SetBytes :: "byte list \<Rightarrow> int" where
  "SetBytes bs = int (bytesToNat bs)"

definition sliceBytes :: "byte list \<Rightarrow> nat \<Rightarrow> nat \<Rightarrow> byte list" where
  "sliceBytes b i j = take (j - i) (drop i b)"

text \<open>
  \<open>common.BytesToAddress\<close> keeps the last 20 bytes;
  \<open>common.HexToAddress(topic.Hex())\<close> keeps the last 20 bytes of the 32-byte topic.
\<close>

definition BytesToAddress :: "byte list \<Rightarrow> address" where
  "BytesToAddress bs = word_of_nat (bytesToNat bs)"

definition HexToAddress_of_topic :: "hash \<Rightarrow> address" where
  "HexToAddress_of_topic t = ucast t"

text \<open>
  \<open>callToken0\<close>, \<open>callToken1\<close> (the same code in both packages) and \<open>callFee\<close>
  (uniswapv3): a read-only call with the 4-byte selector, whose answer must have at
  least 32 bytes. \<open>callFee\<close> reads the whole answer with \<open>SetBytes\<close> and truncates it with
  \<open>uint32(fee.Uint64())\<close>.
\<close>

definition callToken0 :: "env \<Rightarrow> address \<Rightarrow> world \<Rightarrow> (error + address) \<times> world" where
  "callToken0 e poolAddress w =
     (case Client_CallContract e poolAddress [0x0d, 0xfe, 0x16, 0x81] w of
        (Inl err, w') \<Rightarrow> (Inl err, w')
      | (Inr result, w') \<Rightarrow>
          if length result < 32 then (Inl (Errorf ''invalid token0 response'' None), w')
          else (Inr (BytesToAddress (sliceBytes result 12 32)), w'))"

definition callToken1 :: "env \<Rightarrow> address \<Rightarrow> world \<Rightarrow> (error + address) \<times> world" where
  "callToken1 e poolAddress w =
     (case Client_CallContract e poolAddress [0xd2, 0x12, 0x20, 0xa7] w of
        (Inl err, w') \<Rightarrow> (Inl err, w')
      | (Inr result, w') \<Rightarrow>
          if length result < 32 then (Inl (Errorf ''invalid token1 response'' None), w')
          else (Inr (BytesToAddress (sliceBytes result 12 32)), w'))"

definition callFee :: "env \<Rightarrow> address \<Rightarrow> world \<Rightarrow> (error + u32) \<times> world" where
  "callFee e poolAddress w =
     (case Client_CallContract e poolAddress [0xdd, 0xca, 0x3f, 0x43] w of
        (Inl err, w') \<Rightarrow> (Inl err, w')
      | (Inr result, w') \<Rightarrow>
          if length result < 32 then (Inl (Errorf ''invalid fee response'' None), w')
          else (Inr (word_of_nat (bytesToNat result)), w'))"

text \<open>\<open>uniswapv2.Decoder.getPoolInfo\<close>: the cache first, then token0 and token1.\<close>

definition v2_getPoolInfo :: "env \<Rightarrow> address \<Rightarrow> world \<Rightarrow> (error + V2PoolInfo) \<times> world" where
  "v2_getPoolInfo e poolAddress w =
     (case v2PoolCache w poolAddress of
        Some info \<Rightarrow> (Inr info, w)
      | None \<Rightarrow>
          (case callToken0 e poolAddress w of
             (Inl err, w1) \<Rightarrow> (Inl (Errorf ''failed to get token0'' (Some err)), w1)
           | (Inr token0, w1) \<Rightarrow>
               (case callToken1 e poolAddress w1 of
                  (Inl err, w2) \<Rightarrow> (Inl (Errorf ''failed to get token1'' (Some err)), w2)
                | (Inr token1, w2) \<Rightarrow>
                    (let info = \<lparr>V2_Token0 = token0, V2_Token1 = token1\<rparr>
                     in (Inr info, w2\<lparr>v2PoolCache := (v2PoolCache w2)(poolAddress \<mapsto> info)\<rparr>)))))"

text \<open>\<open>uniswapv3.Decoder.getPoolInfo\<close>: the cache first, then token0, token1 and fee.\<close>

definition v3_getPoolInfo :: "env \<Rightarrow> address \<Rightarrow> world \<Rightarrow> (error + V3PoolInfo) \<times> world" where
  "v3_getPoolInfo e poolAddress w =
     (case v3PoolCache w poolAddress of
        Some info \<Rightarrow> (Inr info, w)
      | None \<Rightarrow>
          (case callToken0 e poolAddress w of
             (Inl err, w1) \<Rightarrow> (Inl (Errorf ''failed to get token0'' (Some err)), w1)
           | (Inr token0, w1) \<Rightarrow>
               (case callToken1 e poolAddress w1 of
                  (Inl err, w2) \<Rightarrow> (Inl (Errorf ''failed to get token1'' (Some err)), w2)
                | (Inr token1, w2) \<Rightarrow>
                    (case callFee e poolAddress w2 of
                       (Inl err, w3) \<Rightarrow> (Inl (Errorf ''failed to get fee'' (Some err)), w3)
                     | (Inr fee, w3) \<Rightarrow>
                         (let info = \<lparr>V3_Token0 = token0, V3_Token1 = token1, V3_Fee = fee\<rparr>
                          in (Inr info,
                              w3\<lparr>v3PoolCache := (v3PoolCache w3)(poolAddress \<mapsto> info)\<rparr>))))))"

text \<open>\<open>uniswapv2.Decoder.DecodeSwapLog\<close>: four unsigned 32-byte words.\<close>

definition v2_DecodeSwapLog :: "env \<Rightarrow> Log \<Rightarrow> world \<Rightarrow> (error + Swap) \<times> world" where
  "v2_DecodeSwapLog e lg w =
     (if length (Log_Topics lg) < 3 then
        (Inl (Errorf ''invalid swap log: expected 3 topics'' None), w)
      else if Log_Topics lg ! 0 \<noteq> V2_SwapEventSignature then
        (Inl (Errorf ''not a Uniswap V2 swap event'' None), w)
      else if length (Log_Data lg) < 128 then
        (Inl (Errorf ''invalid swap log data length: expected 128 bytes'' None), w)
      else
        (case v2_getPoolInfo e (Log_Address lg) w of
           (Inl err, w') \<Rightarrow> (Inl (Errorf ''failed to get pool info'' (Some err)), w')
         | (Inr poolInfo, w') \<Rightarrow>
             (Inr \<lparr>TxHash = Log_TxHash lg,
                   BlockNumber = Log_BlockNumber lg,
                   LogIndex = Log_Index lg,
                   Pool = Log_Address lg,
                   Protocol = ''uniswap_v2'',
                   Sender = HexToAddress_of_topic (Log_Topics lg ! 1),
                   Recipient = HexToAddress_of_topic (Log_Topics lg ! 2),
                   Token0 = V2_Token0 poolInfo,
                   Token1 = V2_Token1 poolInfo,
                   Amount0In = SetBytes (sliceBytes (Log_Data lg) 0 32),
                   Amount1In = SetBytes (sliceBytes (Log_Data lg) 32 64),
                   Amount0Out = SetBytes (sliceBytes (Log_Data lg) 64 96),
                   Amount1Out = SetBytes (sliceBytes (Log_Data lg) 96 128),
                   SqrtPriceX96 = None,
                   Liquidity = None,
                   Tick = None\<rparr>, w')))"

text \<open>
  The signed words of the tick-based protocol: \<open>SetBytes\<close> of the 32 bytes, minus
  \<open>2^256\<close> when the top bit of the first byte is set (\<open>log.Data[i]&0x80 != 0\<close>).
\<close>

definition signedWord :: "byte list \<Rightarrow> nat \<Rightarrow> int" where
  "signedWord d i =
     (if (d ! i) AND 0x80 \<noteq> 0 then SetBytes (sliceBytes d i (i + 32)) - 2 ^ 256
      else SetBytes (sliceBytes d i (i + 32)))"

text \<open>
  The reference reading of a 32-byte word as an ABI \<open>int256\<close>: the two's-complement
  value of the 256-bit word with these bytes.
\<close>

definition int256_of_bytes :: "byte list \<Rightarrow> int" where
  "int256_of_bytes bs = sint (word_of_nat (bytesToNat bs) :: 256 word)"

text \<open>
  \<open>uniswapv3.Decoder.DecodeSwapLog\<close>: two signed amounts, two unsigned words, the signed
  tick; then the signed amounts are split into the In and Out fields.
\<close>

definition v3_DecodeSwapLog :: "env \<Rightarrow> Log \<Rightarrow> world \<Rightarrow> (error + Swap) \<times> world" where
  "v3_DecodeSwapLog e lg w =
     (if length (Log_Topics lg) < 3 then
        (Inl (Errorf ''invalid swap log: expected 3 topics'' None), w)
      else if Log_Topics lg ! 0 \<noteq> V3_SwapEventSignature then
        (Inl (Errorf ''not a Uniswap V3 swap event'' None), w)
      else if length (Log_Data lg) < 160 then
        (Inl (Errorf ''invalid swap log data length: expected 160 bytes'' None), w)
      else
        (let amount0 = signedWord (Log_Data lg) 0;
             amount1 = signedWord (Log_Data lg) 32;
             sqrtPriceX96 = SetBytes (sliceBytes (Log_Data lg) 64 96);
             liquidity = SetBytes (sliceBytes (Log_Data lg) 96 128);
             tick = signedWord (Log_Data lg) 128
         in case v3_getPoolInfo e (Log_Address lg) w of
              (Inl err, w') \<Rightarrow> (Inl (Errorf ''failed to get pool info'' (Some err)), w')
            | (Inr poolInfo, w') \<Rightarrow>
                (Inr \<lparr>TxHash = Log_TxHash lg,
                      BlockNumber = Log_BlockNumber lg,
                      LogIndex = Log_Index lg,
                      Pool = Log_Address lg,
                      Protocol = ''uniswap_v3'',
                      Sender = HexToAddress_of_topic (Log_Topics lg ! 1),
                      Recipient = HexToAddress_of_topic (Log_Topics lg ! 2),
                      Token0 = V3_Token0 poolInfo,
                      Token1 = V3_Token1 poolInfo,
                      Amount0In = (if amount0 > 0 then amount0 else 0),
                      Amount1In = (if amount1 > 0 then amount1 else 0),
                      Amount0Out = (if amount0 > 0 then 0 else - amount0),
                      Amount1Out = (if amount1 > 0 then 0 else - amount1),
                      SqrtPriceX96 = Some sqrtPriceX96,
                      Liquidity = Some liquidity,
                      Tick = Some tick\<rparr>, w')))"

section \<open>Unified decoder (internal/decoder)\<close>

text \<open>
  \<open>NewDecoder\<close> creates a protocol decoder exactly when its flag is set, so
  \<open>d.enableV2 && d.v2Decoder != nil\<close> and \<open>d.v2Decoder != nil\<close> are both the flag.
  \<open>GetSwapLogs\<close> of a protocol decoder is \<open>Client.GetLogs\<close> with the block bounds as
  \<open>big.NewInt(int64(b))\<close> and the protocol's event signature as topic filter.
\<close>

definition v2_GetSwapLogs :: "env \<Rightarrow> u64 \<Rightarrow> u64 \<Rightarrow> world \<Rightarrow> (error + Log list) \<times> world" where
  "v2_GetSwapLogs e fromBlock toBlock w =
     Client_GetLogs e (sint fromBlock) (sint toBlock) V2_SwapEventSignature w"

definition v3_GetSwapLogs :: "env \<Rightarrow> u64 \<Rightarrow> u64 \<Rightarrow> world \<Rightarrow> (error + Log list) \<times> world" where
  "v3_GetSwapLogs e fromBlock toBlock w =
     Client_GetLogs e (sint fromBlock) (sint toBlock) V3_SwapEventSignature w"

text \<open>
  \<open>Decoder.GetAllSwapLogs\<close>: a protocol whose fetch fails is logged with \<open>log.Warn\<close> and
  left out; the result is sorted by (block number, log index). \<open>sort.Slice\<close> leaves the
  order of equal keys open; the model keeps their order (a stable sort).
\<close>

definition GetAllSwapLogs :: "env \<Rightarrow> u64 \<Rightarrow> u64 \<Rightarrow> world \<Rightarrow> (error + Log list) \<times> world" where
  "GetAllSwapLogs e fromBlock toBlock w =
     (let (allLogs1, w1) =
            (if EnableUniswapV2 (cfg e) then
               (case v2_GetSwapLogs e fromBlock toBlock w of
                  (Inl err, w') \<Rightarrow> ([], w')
                | (Inr v2Logs, w') \<Rightarrow> ([] @ v2Logs, w'))
             else ([], w));
          (allLogs2, w2) =
            (if EnableUniswapV3 (cfg e) then
               (case v3_GetSwapLogs e fromBlock toBlock w1 of
                  (Inl err, w') \<Rightarrow> (allLogs1, w')
                | (Inr v3Logs, w') \<Rightarrow> (allLogs1 @ v3Logs, w'))
             else (allLogs1, w1))
      in (Inr (sort_key (\<lambda>l. (Log_BlockNumber l, Log_Index l)) allLogs2), w2))"

text \<open>
  \<open>Decoder.DecodeSwapLog\<close> returns \<open>(nil, nil)\<close> for a log without topics, with an
  unknown first topic, or of a protocol that is switched off: \<open>Inr None\<close>.
\<close>

definition DecodeSwapLog :: "env \<Rightarrow> Log \<Rightarrow> world \<Rightarrow> (error + Swap option) \<times> world" where
  "DecodeSwapLog e lg w =
     (if length (Log_Topics lg) = 0 then (Inr None, w)
      else if Log_Topics lg ! 0 = V2_SwapEventSignature then
        (if EnableUniswapV2 (cfg e) then
           (case v2_DecodeSwapLog e lg w of
              (Inl err, w') \<Rightarrow> (Inl err, w')
            | (Inr swap, w') \<Rightarrow> (Inr (Some swap), w'))
         else (Inr None, w))
      else if Log_Topics lg ! 0 = V3_SwapEventSignature then
        (if EnableUniswapV3 (cfg e) then
           (case v3_DecodeSwapLog e lg w of
              (Inl err, w') \<Rightarrow> (Inl err, w')
            | (Inr swap, w') \<Rightarrow> (Inr (Some swap), w'))
         else (Inr None, w))
      else (Inr None, w))"

text \<open>
  \<open>Decoder.GroupSwapsByTransaction\<close> fills a Go map from transaction hash to the logs of
  that transaction, in their order. A Go map is iterated in no fixed order; the model
  keeps the groups in the order of their first log.
\<close>

fun appendToGroup :: "'k \<Rightarrow> 'v \<Rightarrow> ('k \<times> 'v list) list \<Rightarrow> ('k \<times> 'v list) list" where
  "appendToGroup k v [] = [(k, [v])]"
| "appendToGroup k v ((k', vs) # rest) =
     (if k = k' then (k', vs @ [v]) # rest else (k', vs) # appendToGroup k v rest)"

text \<open>The shape both grouping loops of the source have, for any key.\<close>

definition groupBy :: "('v \<Rightarrow> 'k) \<Rightarrow> 'v list \<Rightarrow> ('k \<times> 'v list) list" where
  "groupBy kf xs = foldl (\<lambda>m x. appendToGroup (kf x) x m) [] xs"

definition GroupSwapsByTransaction :: "Log list \<Rightarrow> (hash \<times> Log list) list" where
  "GroupSwapsByTransaction logs = foldl (\<lambda>groups lg. appendToGroup (Log_TxHash lg) lg groups) [] logs"

text \<open>
  \<open>Decoder.DecodeSwapsForTransaction\<close>: the loop skips a log whose decoding fails
  (\<open>continue\<close>) and a log that yields no swap, and the swaps are sorted by log index.
\<close>

fun decodeLoop :: "env \<Rightarrow> Log list \<Rightarrow> Swap list \<Rightarrow> world \<Rightarrow> Swap list \<times> world" where
  "decodeLoop e [] swaps w = (swaps, w)"
| "decodeLoop e (lg # logs) swaps w =
     (case DecodeSwapLog e lg w of
        (Inl err, w') \<Rightarrow> decodeLoop e logs swaps w'
      | (Inr None, w') \<Rightarrow> decodeLoop e logs swaps w'
      | (Inr (Some swap), w') \<Rightarrow> decodeLoop e logs (swaps @ [swap]) w')"

definition DecodeSwapsForTransaction :: "env \<Rightarrow> Log list \<Rightarrow> world \<Rightarrow> (error + Swap list) \<times> world" where
  "DecodeSwapsForTransaction e logs w =
     (case decodeLoop e logs [] w of
        (swaps, w') \<Rightarrow> (Inr (sort_key LogIndex swaps), w'))"

section \<open>Arbitrage detector (internal/arbitrage)\<close>

definition WETH :: address where
  "WETH = 0xC02aaA39b223FE8D0A0e5C4F27eAD9083C756Cc2"

text \<open>
  The token flow of one swap. In the source \<open>flow.amountIn\<close> stays nil exactly when
  \<open>flow.tokenIn\<close> stays the zero address (likewise for the out side), and a flow with a
  zero token is dropped before any amount is read; the model writes 0 for that nil.
\<close>

record tokenFlow =
  tokenIn :: address
  tokenOut :: address
  amountIn :: int
  amountOut :: int

definition tokenFlowOf :: "Swap \<Rightarrow> tokenFlow" where
  "tokenFlowOf swap =
     (if Amount0In swap > 0 \<and> Amount1Out swap > 0 then
        \<lparr>tokenIn = Token0 swap, tokenOut = Token1 swap,
         amountIn = Amount0In swap, amountOut = Amount1Out swap\<rparr>
      else if Amount1In swap > 0 \<and> Amount0Out swap > 0 then
        \<lparr>tokenIn = Token1 swap, tokenOut = Token0 swap,
         amountIn = Amount1In swap, amountOut = Amount0Out swap\<rparr>
      else
        \<lparr>tokenIn = (if Amount0In swap > 0 then Token0 swap
                    else if Amount1In swap > 0 then Token1 swap else 0),
         tokenOut = (if Amount0Out swap > 0 then Token0 swap
                     else if Amount1Out swap > 0 then Token1 swap else 0),
         amountIn = (if Amount0In swap > 0 then Amount0In swap
                     else if Amount1In swap > 0 then Amount1In swap else 0),
         amountOut = (if Amount0Out swap > 0 then Amount0Out swap
                      else if Amount1Out swap > 0 then Amount1Out swap else 0)\<rparr>)"

text \<open>The first loop of \<open>detectCyclicArbitrage\<close>: the flows with both tokens resolved.\<close>

fun buildFlows :: "Swap list \<Rightarrow> tokenFlow list" where
  "buildFlows [] = []"
| "buildFlows (swap # swaps) =
     (let flow = tokenFlowOf swap
      in if tokenIn flow \<noteq> 0 \<and> tokenOut flow \<noteq> 0 then flow # buildFlows swaps
         else buildFlows swaps)"

text \<open>
  The second loop: \<open>for i := 0; i < len(flows)-1; i++\<close>, which returns nil at the first
  pair with \<open>flows[i].tokenOut != flows[i+1].tokenIn\<close>.
\<close>

fun pathConnected :: "tokenFlow list \<Rightarrow> bool" where
  "pathConnected (f # g # rest) = (if tokenOut f \<noteq> tokenIn g then False else pathConnected (g # rest))"
| "pathConnected fs = True"

definition detectCyclicArbitrage :: "Swap list \<Rightarrow> Arbitrage option" where
  "detectCyclicArbitrage swaps =
     (if length swaps < 2 then None
      else
        (let flows = buildFlows swaps in
         if length flows < 2 then None
         else
           (let firstToken = tokenIn (flows ! 0);
                lastToken = tokenOut (flows ! (length flows - 1)) in
            if firstToken \<noteq> lastToken then None
            else if \<not> pathConnected flows then None
            else
              (let amtIn = amountIn (flows ! 0);
                   amtOut = amountOut (flows ! (length flows - 1)) in
               if amtOut \<le> amtIn then None
               else
                 Some \<lparr>Arb_TxHash = TxHash (swaps ! 0),
                       Arb_BlockNumber = BlockNumber (swaps ! 0),
                       Arbitrageur = Sender (swaps ! 0),
                       Path = swaps,
                       TokenStart = firstToken,
                       TokenEnd = lastToken,
                       AmountIn = amtIn,
                       AmountOut = amtOut,
                       Profit = amtOut - amtIn,
                       ProfitToken = firstToken,
                       GasUsed = 0,
                       GasPrice = None,
                       NetProfitWei = None\<rparr>))))"

text \<open>
  \<open>detectCrossDEXArbitrage\<close>. The key of a swap orders its two tokens by the text
  \<open>Token.Hex()\<close>, compared as Go strings (byte-wise). The Go map of groups is iterated
  in no fixed order; the model visits the groups in the order of their first swap. Each
  group is a slice and is scanned in the order of the sorted swaps.
\<close>

definition pairKeyOf :: "(address \<Rightarrow> string) \<Rightarrow> Swap \<Rightarrow> address \<times> address" where
  "pairKeyOf hex swap =
     (if hex (Token0 swap) < hex (Token1 swap) then (Token0 swap, Token1 swap)
      else (Token1 swap, Token0 swap))"

definition groupByPair :: "(address \<Rightarrow> string) \<Rightarrow> Swap list \<Rightarrow> ((address \<times> address) \<times> Swap list) list" where
  "groupByPair hex swaps = foldl (\<lambda>pairSwaps swap. appendToGroup (pairKeyOf hex swap) swap pairSwaps) [] swaps"

definition isWethBuy :: "Swap \<Rightarrow> bool" where
  "isWethBuy swap =
     ((Token0 swap = WETH \<and> Amount0In swap > 0) \<or> (Token1 swap = WETH \<and> Amount1In swap > 0))"

text \<open>The scan for the first buy leg and the first sell leg of a group.\<close>

fun findLegs :: "Swap list \<Rightarrow> Swap option \<Rightarrow> Swap option \<Rightarrow> Swap option \<times> Swap option" where
  "findLegs [] buySwap sellSwap = (buySwap, sellSwap)"
| "findLegs (swap # rest) buySwap sellSwap =
     (if Token0 swap = WETH \<or> Token1 swap = WETH then
        (if isWethBuy swap then
           findLegs rest (if buySwap = None then Some swap else buySwap) sellSwap
         else
           findLegs rest buySwap (if sellSwap = None then Some swap else sellSwap))
      else findLegs rest buySwap sellSwap)"

text \<open>The body of the loop over the groups, for one group.\<close>

definition crossDEXForPair :: "Swap list \<Rightarrow> Arbitrage option" where
  "crossDEXForPair swapsForPair =
     (if length swapsForPair < 2 then None
      else if length (remdups (map Pool swapsForPair)) < 2 then None
      else
        (case findLegs swapsForPair None None of
           (Some buySwap, Some sellSwap) \<Rightarrow>
             if Pool buySwap \<noteq> Pool sellSwap then
               (let wethIn = (if Token0 buySwap = WETH then Amount0In buySwap else Amount1In buySwap);
                    wethOut = (if Token0 sellSwap = WETH then Amount0Out sellSwap else Amount1Out sellSwap) in
                if wethOut > wethIn then
                  Some \<lparr>Arb_TxHash = TxHash buySwap,
                        Arb_BlockNumber = BlockNumber buySwap,
                        Arbitrageur = Sender buySwap,
                        Path = [buySwap, sellSwap],
                        TokenStart = WETH,
                        TokenEnd = WETH,
                        AmountIn = wethIn,
                        AmountOut = wethOut,
                        Profit = wethOut - wethIn,
                        ProfitToken = WETH,
                        GasUsed = 0,
                        GasPrice = None,
                        NetProfitWei = None\<rparr>
                else None)
             else None
         | _ \<Rightarrow> None))"

definition detectCrossDEXArbitrage :: "(address \<Rightarrow> string) \<Rightarrow> Swap list \<Rightarrow> Arbitrage list" where
  "detectCrossDEXArbitrage hex swaps =
     List.map_filter (\<lambda>(pair, swapsForPair). crossDEXForPair swapsForPair) (groupByPair hex swaps)"

text \<open>
  The gas block \<open>DetectArbitrage\<close> runs for the cyclic finding and for each cross-venue
  finding: the receipt's gas used, then the transaction's gas price; the gas cost is
  \<open>big.NewInt(int64(arb.GasUsed))\<close> times the gas price.
\<close>

definition addGasInfo :: "env \<Rightarrow> hash \<Rightarrow> Arbitrage \<Rightarrow> world \<Rightarrow> Arbitrage \<times> world" where
  "addGasInfo e txHash arb w =
     (case Client_TransactionReceipt e txHash w of
        (Inl err, w1) \<Rightarrow> (arb, w1)
      | (Inr gasUsed, w1) \<Rightarrow>
          (let arb1 = arb\<lparr>GasUsed := gasUsed\<rparr> in
           case Client_GetTransaction e txHash w1 of
             (Inl err, w2) \<Rightarrow> (arb1, w2)
           | (Inr gasPrice, w2) \<Rightarrow>
               (let gasCost = sint (GasUsed arb1) * gasPrice
                in (arb1\<lparr>GasPrice := Some gasPrice, NetProfitWei := Some (Profit arb1 - gasCost)\<rparr>, w2))))"

fun addGasInfoAll :: "env \<Rightarrow> hash \<Rightarrow> Arbitrage list \<Rightarrow> world \<Rightarrow> Arbitrage list \<times> world" where
  "addGasInfoAll e txHash [] w = ([], w)"
| "addGasInfoAll e txHash (arb # arbs) w =
     (case addGasInfo e txHash arb w of
        (arb', w1) \<Rightarrow>
          (case addGasInfoAll e txHash arbs w1 of
             (arbs', w2) \<Rightarrow> (arb' # arbs', w2)))"

text \<open>
  \<open>Detector.DetectArbitrage\<close>. The result \<open>(nil, nil)\<close> is \<open>Inr []\<close>. \<open>sort.Slice\<close> by
  log index is modelled by a stable sort.
\<close>

definition DetectArbitrage :: "env \<Rightarrow> hash \<Rightarrow> Swap list \<Rightarrow> world \<Rightarrow> (error + Arbitrage list) \<times> world" where
  "DetectArbitrage e txHash swaps w =
     (if length swaps < 2 then (Inr [], w)
      else
        (let sorted = sort_key LogIndex swaps in
         case (case detectCyclicArbitrage sorted of
                 None \<Rightarrow> ([], w)
               | Some cyclicArb \<Rightarrow>
                   (case addGasInfo e txHash cyclicArb w of (arb', w') \<Rightarrow> ([arb'], w'))) of
           (arbitrages, w1) \<Rightarrow>
             (case addGasInfoAll e txHash (detectCrossDEXArbitrage (AddressHex e) sorted) w1 of
                (crossDexArbs, w2) \<Rightarrow> (Inr (arbitrages @ crossDexArbs), w2))))"

definition IsProfitable :: "Arbitrage \<Rightarrow> bool" where
  "IsProfitable arb =
     (case NetProfitWei arb of
        None \<Rightarrow> Profit arb > 0
      | Some netProfit \<Rightarrow> netProfit > 0)"

section \<open>Pipeline (cmd/inspector)\<close>

text \<open>
  The loop of \<open>processBlockRange\<close> over the transactions of the range. The logger's
  counters and log lines are not part of the state; the findings passed to
  \<open>LogArbitrage\<close> are collected in \<open>reported\<close>.
\<close>

fun processTransactions :: "env \<Rightarrow> (hash \<times> Log list) list \<Rightarrow> world \<Rightarrow> world" where
  "processTransactions e [] w = w"
| "processTransactions e ((txHash, txSwapLogs) # rest) w =
     (case DecodeSwapsForTransaction e txSwapLogs w of
        (Inl err, w1) \<Rightarrow> processTransactions e rest w1
      | (Inr swaps, w1) \<Rightarrow>
          (case DetectArbitrage e txHash swaps w1 of
             (Inl err, w2) \<Rightarrow> processTransactions e rest w2
           | (Inr arbitrages, w2) \<Rightarrow>
               processTransactions e rest (w2\<lparr>reported := reported w2 @ arbitrages\<rparr>)))"

text \<open>
  The loop \<open>for block := fromBlock; block <= toBlock; block++\<close> that reports each block
  of the range as complete. Its body only logs; the loop never ends when \<open>toBlock\<close> is the
  largest \<open>uint64\<close>, and then the value is \<open>None\<close>.
\<close>

partial_function (option) logBlocks :: "u64 \<Rightarrow> u64 \<Rightarrow> unit option" where
  "logBlocks block toBlock =
     (if block \<le> toBlock then logBlocks (block + 1) toBlock else Some ())"

text \<open>
  \<open>Inspector.processBlockRange\<close>: \<open>None\<close> when it does not return. After the
  transactions, \<open>totalSwaps / int(blocksProcessed)\<close> panics when
  \<open>blocksProcessed = toBlock - fromBlock + 1\<close> is 0.
\<close>

definition processBlockRange :: "env \<Rightarrow> u64 \<Rightarrow> u64 \<Rightarrow> world \<Rightarrow> (error option \<times> world) option" where
  "processBlockRange e fromBlock toBlock w =
     (case GetAllSwapLogs e fromBlock toBlock w of
        (Inl err, w1) \<Rightarrow> Some (Some err, w1)
      | (Inr logs, w1) \<Rightarrow>
          if length logs = 0 then
            (case logBlocks fromBlock toBlock of
               None \<Rightarrow> None
             | Some u \<Rightarrow> Some (None, w1))
          else
            (let w2 = processTransactions e (GroupSwapsByTransaction logs) w1;
                 blocksProcessed = toBlock - fromBlock + 1 in
             if blocksProcessed = 0 then Some (Some (Panic ''integer divide by zero''), w2)
             else
               (case logBlocks fromBlock toBlock of
                  None \<Rightarrow> None
                | Some u \<Rightarrow> Some (None, w2))))"

text \<open>
  The range \<open>processNewBlocks\<close> selects from the watermark \<open>i.lastBlock\<close>, the chain head
  and the batch size, in \<open>uint64\<close> arithmetic (\<open>uint64(i.cfg.Inspector.BatchSize)\<close> of a
  Go \<open>int\<close>): \<open>None\<close> when there is no new block.
\<close>

definition selectRange :: "u64 \<Rightarrow> u64 \<Rightarrow> int \<Rightarrow> (u64 \<times> u64) option" where
  "selectRange lastBlock currentBlock batchSize =
     (let fromBlock = lastBlock + 1 in
      if currentBlock < fromBlock then None
      else
        (let toBlock = currentBlock in
         if toBlock - fromBlock > word_of_int batchSize
         then Some (fromBlock, fromBlock + word_of_int batchSize - 1)
         else Some (fromBlock, toBlock)))"

text \<open>
  \<open>Inspector.processNewBlocks\<close>: the returned error, the new value of \<open>i.lastBlock\<close> and
  the new state; \<open>None\<close> when it does not return.
\<close>

definition processNewBlocks :: "env \<Rightarrow> u64 \<Rightarrow> world \<Rightarrow> (error option \<times> u64 \<times> world) option" where
  "processNewBlocks e lastBlock w =
     (case Client_BlockNumber e w of
        (Inl err, w1) \<Rightarrow> Some (Some err, lastBlock, w1)
      | (Inr currentBlock, w1) \<Rightarrow>
          (case selectRange lastBlock currentBlock (BatchSize (cfg e)) of
             None \<Rightarrow> Some (None, lastBlock, w1)
           | Some (fromBlock, toBlock) \<Rightarrow>
               (case processBlockRange e fromBlock toBlock w1 of
                  None \<Rightarrow> None
                | Some (Some err, w2) \<Rightarrow> Some (Some err, lastBlock, w2)
                | Some (None, w2) \<Rightarrow> Some (None, toBlock, w2))))"

text \<open>Every entry of the two pool caches of the first state is in the second state, unchanged.\<close>

definition cacheGrows :: "world \<Rightarrow> world \<Rightarrow> bool" where
  "cacheGrows w w' \<longleftrightarrow> v2PoolCache w \<subseteq>\<^sub>m v2PoolCache w' \<and> v3PoolCache w \<subseteq>\<^sub>m v3PoolCache w'"

section \<open>Sample inputs\<close>

text \<open>
  Concrete configurations, nodes and states at which the theorems below are evaluated.
  \<open>defaultConfig\<close> holds the defaults of \<open>config.Load\<close>; \<open>readmeConfig\<close> the batch size of
  the README's \<open>config.yaml\<close>.
\<close>

definition defaultConfig :: config where
  "defaultConfig =
     \<lparr>RetryAttempts = 3, BatchSize = 100, StartBlock = 0,
      EnableUniswapV2 = True, EnableUniswapV3 = True\<rparr>"

definition readmeConfig :: config where
  "readmeConfig = defaultConfig\<lparr>BatchSize := 10\<rparr>"

definition emptyWorld :: world where
  "emptyWorld = \<lparr>trace = [], v2PoolCache = Map.empty, v3PoolCache = Map.empty, reported = []\<rparr>"

text \<open>
  Two more mainnet tokens, and the text \<open>common.Address.Hex\<close> gives for the three of them
  (mixed case, by the EIP-55 checksum); any other address is not needed below.
\<close>

definition USDC :: address where
  "USDC = 0xA0b86991c6218b36c1d19D4a2e9Eb0cE3606eB48"

definition STETH :: address where
  "STETH = 0xae7ab96520DE3A18E5e111B5EaAb095312D7fE84"

definition knownHex :: "address \<Rightarrow> string" where
  "knownHex a =
     (if a = WETH then ''0xC02aaA39b223FE8D0A0e5C4F27eAD9083C756Cc2''
      else if a = USDC then ''0xA0b86991c6218b36c1d19D4a2e9Eb0cE3606eB48''
      else if a = STETH then ''0xae7ab96520DE3A18E5e111B5EaAb095312D7fE84''
      else ''0x0000000000000000000000000000000000000000'')"

text \<open>A node at head 11 with no swap logs, and no contracts or transactions to read.\<close>

definition quietNode :: node where
  "quietNode =
     \<lparr>nodeBlockNumber = (\<lambda>t. Inr 11),
      nodeFilterLogs = (\<lambda>t fromB toB topic. Inr []),
      nodeCallContract = (\<lambda>t a d. Inl (NodeError ''execution reverted'')),
      nodeTransactionReceipt = (\<lambda>t h. Inl (NodeError ''not found'')),
      nodeTransactionByHash = (\<lambda>t h. Inl (NodeError ''not found''))\<rparr>"

definition quietEnv :: env where
  "quietEnv = \<lparr>cfg = readmeConfig, chain = quietNode, AddressHex = knownHex\<rparr>"

text \<open>A node whose receipts report a gas used of \<open>2^63\<close> and whose transactions a gas price of 1.\<close>

definition hugeGasNode :: node where
  "hugeGasNode =
     quietNode\<lparr>nodeTransactionReceipt := (\<lambda>t h. Inr 0x8000000000000000),
               nodeTransactionByHash := (\<lambda>t h. Inr 1)\<rparr>"

definition hugeGasEnv :: env where
  "hugeGasEnv = \<lparr>cfg = defaultConfig, chain = hugeGasNode, AddressHex = knownHex\<rparr>"


text \<open>A node at head 5 whose log filter, like every other read, fails at each attempt.\<close>

definition logsDownNode :: node where
  "logsDownNode =
     \<lparr>nodeBlockNumber = (\<lambda>t. Inr 5),
      nodeFilterLogs = (\<lambda>t fromB toB topic. Inl (NodeError ''connection refused'')),
      nodeCallContract = (\<lambda>t a d. Inl (NodeError ''connection refused'')),
      nodeTransactionReceipt = (\<lambda>t h. Inl (NodeError ''connection refused'')),
      nodeTransactionByHash = (\<lambda>t h. Inl (NodeError ''connection refused''))\<rparr>"

definition logsDownEnv :: env where
  "logsDownEnv = \<lparr>cfg = defaultConfig, chain = logsDownNode, AddressHex = knownHex\<rparr>"

text \<open>A swap of transaction 7 in block 1, sent by address 9, with the given log index, pool,
  tokens and amounts.\<close>

definition sampleSwap :: "u64 \<Rightarrow> address \<Rightarrow> address \<Rightarrow> address \<Rightarrow> int \<Rightarrow> int \<Rightarrow> int \<Rightarrow> int \<Rightarrow> Swap" where
  "sampleSwap idx pool token0 token1 a0in a1in a0out a1out =
     \<lparr>TxHash = 7, BlockNumber = 1, LogIndex = idx, Pool = pool, Protocol = ''uniswap_v2'',
      Sender = 9, Recipient = 9, Token0 = token0, Token1 = token1,
      Amount0In = a0in, Amount1In = a1in, Amount0Out = a0out, Amount1Out = a1out,
      SqrtPriceX96 = None, Liquidity = None, Tick = None\<rparr>"

text \<open>
  The scenario of the specification: 1,000,000 units of the reference token spent on
  pool \<open>0x11\<close> for the other token, which is sold on pool \<open>0x12\<close> for 1,050,000 units.
\<close>

definition buyLeg :: Swap where
  "buyLeg = sampleSwap 0 0x11 USDC WETH 0 1000000 2000 0"

definition sellLeg :: Swap where
  "sellLeg = sampleSwap 1 0x12 USDC WETH 2000 0 0 1050000"

text \<open>A swap on a pool of STETH and WETH, and one on a pool that lists the two tokens in
  the other order.\<close>

definition stethLeg :: Swap where
  "stethLeg = sampleSwap 0 0x21 STETH WETH 0 1000 900 0"

definition stethLegFlipped :: Swap where
  "stethLegFlipped = sampleSwap 1 0x22 WETH STETH 1000 0 0 900"

text \<open>
  A node with one V3 pool of USDC and WETH with fee 3000 at every address: the answers
  to \<open>token0()\<close>, \<open>token1()\<close> and \<open>fee()\<close> are 32-byte words. A V3 swap log of pool
  \<open>0x31\<close> with amount0 = -2000, amount1 = 1000000, price 1, liquidity 5 and tick -5, the
  pool metadata and the state after its first resolution, and the swap the log decodes to.
\<close>

definition usdcWord :: "byte list" where
  "usdcWord = replicate 12 0 @
     [0xA0, 0xb8, 0x69, 0x91, 0xc6, 0x21, 0x8b, 0x36, 0xc1, 0xd1,
      0x9D, 0x4a, 0x2e, 0x9E, 0xb0, 0xcE, 0x36, 0x06, 0xeB, 0x48]"

definition wethWord :: "byte list" where
  "wethWord = replicate 12 0 @
     [0xC0, 0x2a, 0xaA, 0x39, 0xb2, 0x23, 0xFE, 0x8D, 0x0A, 0x0e,
      0x5C, 0x4F, 0x27, 0xeA, 0xD9, 0x08, 0x3C, 0x75, 0x6C, 0xc2]"

definition poolNode :: node where
  "poolNode =
     quietNode\<lparr>nodeCallContract := (\<lambda>t a d.
        if d = [0x0d, 0xfe, 0x16, 0x81] then Inr usdcWord
        else if d = [0xd2, 0x12, 0x20, 0xa7] then Inr wethWord
        else if d = [0xdd, 0xca, 0x3f, 0x43] then Inr (replicate 30 0 @ [0x0B, 0xB8])
        else Inl (NodeError ''execution reverted''))\<rparr>"

definition poolEnv :: env where
  "poolEnv = \<lparr>cfg = defaultConfig, chain = poolNode, AddressHex = knownHex\<rparr>"

definition v3Log :: Log where
  "v3Log =
     \<lparr>Log_Address = 0x31,
      Log_Topics = [V3_SwapEventSignature, 9, 9],
      Log_Data = replicate 30 0xFF @ [0xF8, 0x30] @
                 replicate 29 0 @ [0x0F, 0x42, 0x40] @
                 replicate 31 0 @ [0x01] @
                 replicate 31 0 @ [0x05] @
                 replicate 31 0xFF @ [0xFB],
      Log_BlockNumber = 1, Log_TxHash = 7, Log_Index = 0\<rparr>"

definition v3PoolInfo :: V3PoolInfo where
  "v3PoolInfo = \<lparr>V3_Token0 = USDC, V3_Token1 = WETH, V3_Fee = 3000\<rparr>"

definition v3World :: world where
  "v3World = emptyWorld
     \<lparr>trace := [ReqCallContract 0x31 [0x0d, 0xfe, 0x16, 0x81],
                ReqCallContract 0x31 [0xd2, 0x12, 0x20, 0xa7],
                ReqCallContract 0x31 [0xdd, 0xca, 0x3f, 0x43]],
      v3PoolCache := [0x31 \<mapsto> v3PoolInfo]\<rparr>"

definition v3Swap :: Swap where
  "v3Swap =
     \<lparr>TxHash = 7, BlockNumber = 1, LogIndex = 0, Pool = 0x31, Protocol = ''uniswap_v3'',
      Sender = 9, Recipient = 9, Token0 = USDC, Token1 = WETH,
      Amount0In = 0, Amount1In = 1000000, Amount0Out = 2000, Amount1Out = 0,
      SqrtPriceX96 = Some 1, Liquidity = Some 5, Tick = Some (- 5)\<rparr>"

text \<open>A V2 swap log with three topics and a payload of 100 bytes.\<close>

definition badV2Log :: Log where
  "badV2Log =
     \<lparr>Log_Address = 0x11, Log_Topics = [V2_SwapEventSignature, 9, 9],
      Log_Data = replicate 100 0, Log_BlockNumber = 1, Log_TxHash = 7, Log_Index = 1\<rparr>"

section \<open>Properties\<close>

subsection \<open>The retrying client\<close>

lemma retryLoop_frame:
  "retryLoop n raw rq msg err w = (r, w') \<Longrightarrow>
     v2PoolCache w' = v2PoolCache w \<and> v3PoolCache w' = v3PoolCache w \<and> reported w' = reported w"
  by (induction n raw rq msg err w rule: retryLoop.induct) (auto split: sum.splits)

text \<open>One round of the loop, in a form that rewrites a numeral count of attempts.\<close>

lemma retryLoop_unfold:
  "0 < n \<Longrightarrow> retryLoop n raw rq msg err w =
     (case raw (length (trace w)) of
        Inr v \<Rightarrow> (Inr v, w\<lparr>trace := trace w @ [rq]\<rparr>)
      | Inl e \<Rightarrow> retryLoop (n - 1) raw rq msg (Some e) (w\<lparr>trace := trace w @ [rq]\<rparr>))"
  by (cases n; cases "raw (length (trace w))") simp_all

lemmas client_defs = Client_BlockNumber_def Client_GetLogs_def Client_TransactionReceipt_def
  Client_GetTransaction_def Client_CallContract_def

subsection \<open>The poll tick: range selection and the watermark\<close>

lemma GetAllSwapLogs_no_error: "\<exists>logs w'. GetAllSwapLogs e fromBlock toBlock w = (Inr logs, w')"
  by (simp add: GetAllSwapLogs_def Let_def split: prod.splits)

text \<open>The reporting loop ends unless the range ends at the largest block number.\<close>

lemma logBlocks_returns:
  assumes "toBlock \<noteq> - 1"
  shows "logBlocks block toBlock = Some ()"
proof (induction "unat toBlock + 1 - unat block" arbitrary: block)
  case 0
  then have "\<not> block \<le> toBlock" by (simp add: word_le_nat_alt)
  then show ?case by (subst logBlocks.simps) simp
next
  case (Suc n)
  show ?case
  proof (cases "block \<le> toBlock")
    case False
    then show ?thesis by (subst logBlocks.simps) simp
  next
    case True
    have "toBlock < - 1" using assms by (simp add: word_order.not_eq_extremum)
    with True have "block < - 1" by simp
    then have "block \<noteq> - 1" by auto
    then have "1 + block \<noteq> 0" by (simp add: add_eq_0_iff)
    then have "unat (1 + block) = Suc (unat block)" by (rule unatSuc)
    then have u: "unat (block + 1) = Suc (unat block)" by (simp add: add.commute)
    have "n = unat toBlock + 1 - unat (block + 1)" using Suc(2) u by simp
    then have "logBlocks (block + 1) toBlock = Some ()" by (rule Suc(1))
    then show ?thesis using True by (subst logBlocks.simps) simp
  qed
qed

text \<open>
  A range that does not end at the largest block number and whose length
  \<open>toBlock - fromBlock + 1\<close> is not 0 is processed without an error.
\<close>

lemma processBlockRange_no_error:
  assumes "toBlock \<noteq> - 1" and "toBlock - fromBlock + 1 \<noteq> 0"
  shows "\<exists>w'. processBlockRange e fromBlock toBlock w = Some (None, w')"
  using GetAllSwapLogs_no_error [of e fromBlock toBlock w] assms
  by (auto simp: processBlockRange_def Let_def logBlocks_returns)

lemma processNewBlocks_advances:
  assumes "Client_BlockNumber e w = (Inr currentBlock, w1)"
      and "selectRange lastBlock currentBlock (BatchSize (cfg e)) = Some (fromBlock, toBlock)"
      and "toBlock \<noteq> - 1" and "toBlock - fromBlock + 1 \<noteq> 0"
  shows "\<exists>w'. processNewBlocks e lastBlock w = Some (None, toBlock, w')"
  using assms(1,2) processBlockRange_no_error [OF assms(3,4), of e w1]
  by (auto simp: processNewBlocks_def)

text \<open>Only a failed head lookup makes the tick fail, and it keeps the watermark.\<close>

lemma processNewBlocks_head_failure:
  assumes "Client_BlockNumber e w = (Inl err, w1)"
  shows "processNewBlocks e lastBlock w = Some (Some err, lastBlock, w1)"
  using assms by (simp add: processNewBlocks_def)

lemma processNewBlocks_no_new_block:
  assumes "Client_BlockNumber e w = (Inr currentBlock, w1)"
      and "currentBlock < lastBlock + 1"
  shows "processNewBlocks e lastBlock w = Some (None, lastBlock, w1)"
  using assms by (simp add: processNewBlocks_def selectRange_def)

lemma GetAllSwapLogs_both_fail:
  assumes "EnableUniswapV2 (cfg e)" and "EnableUniswapV3 (cfg e)"
      and "v2_GetSwapLogs e fromBlock toBlock w1 = (Inl err2, w2)"
      and "v3_GetSwapLogs e fromBlock toBlock w2 = (Inl err3, w3)"
  shows "GetAllSwapLogs e fromBlock toBlock w1 = (Inr [], w3)"
  using assms by (simp add: GetAllSwapLogs_def)

text \<open>
  C1 (as stated, refuted). At a node with head 5 whose log filter always fails, the fetch
  of the V2 swap logs of the range 1..5 fails after the three configured attempts, and
  yet the tick from watermark 0 returns no error and moves the watermark to 5: the range
  is not abandoned and will not be selected again.
\<close>

theorem C1_failed_log_fetch_counterexample:
  "v2_GetSwapLogs logsDownEnv 1 5 (emptyWorld\<lparr>trace := [ReqBlockNumber]\<rparr>) =
     (Inl (Errorf ''failed to get logs'' (Some (NodeError ''connection refused''))),
      emptyWorld\<lparr>trace := [ReqBlockNumber,
        ReqFilterLogs 1 5 V2_SwapEventSignature, ReqFilterLogs 1 5 V2_SwapEventSignature,
        ReqFilterLogs 1 5 V2_SwapEventSignature]\<rparr>) \<and>
   processNewBlocks logsDownEnv 0 emptyWorld =
     Some (None, 5, emptyWorld\<lparr>trace := [ReqBlockNumber,
        ReqFilterLogs 1 5 V2_SwapEventSignature, ReqFilterLogs 1 5 V2_SwapEventSignature,
        ReqFilterLogs 1 5 V2_SwapEventSignature,
        ReqFilterLogs 1 5 V3_SwapEventSignature, ReqFilterLogs 1 5 V3_SwapEventSignature,
        ReqFilterLogs 1 5 V3_SwapEventSignature]\<rparr>)"
  by (simp add: logsDownEnv_def logsDownNode_def defaultConfig_def emptyWorld_def client_defs
      retryLoop_unfold v2_GetSwapLogs_def v3_GetSwapLogs_def processNewBlocks_def selectRange_def
      processBlockRange_def GetAllSwapLogs_def logBlocks_returns)

text \<open>
  C1 (amended). In every poll tick whose head lookup succeeds and selects a range that
  does not end at the largest block number and whose length is not 0, the tick returns no
  error and the watermark advances to the upper bound of the range, whatever the log
  fetches answer. In particular, when the fetch of both enabled protocols fails after
  the retries, \<open>GetAllSwapLogs\<close> returns the empty list and no error, and the tick still
  advances the watermark.
\<close>

theorem C1_failed_log_fetch_advances_watermark:
  assumes "Client_BlockNumber e w = (Inr currentBlock, w1)"
      and "selectRange lastBlock currentBlock (BatchSize (cfg e)) = Some (fromBlock, toBlock)"
      and "toBlock \<noteq> - 1" and "toBlock - fromBlock + 1 \<noteq> 0"
  shows "(\<exists>w'. processNewBlocks e lastBlock w = Some (None, toBlock, w')) \<and>
         (\<forall>err2 w2 err3 w3.
            EnableUniswapV2 (cfg e) \<and> EnableUniswapV3 (cfg e) \<and>
            v2_GetSwapLogs e fromBlock toBlock w1 = (Inl err2, w2) \<and>
            v3_GetSwapLogs e fromBlock toBlock w2 = (Inl err3, w3) \<longrightarrow>
            GetAllSwapLogs e fromBlock toBlock w1 = (Inr [], w3) \<and>
            processNewBlocks e lastBlock w = Some (None, toBlock, w3))"
proof (intro conjI allI impI)
  show "\<exists>w'. processNewBlocks e lastBlock w = Some (None, toBlock, w')"
    using assms by (rule processNewBlocks_advances)
next
  fix err2 w2 err3 w3
  assume "EnableUniswapV2 (cfg e) \<and> EnableUniswapV3 (cfg e) \<and>
          v2_GetSwapLogs e fromBlock toBlock w1 = (Inl err2, w2) \<and>
          v3_GetSwapLogs e fromBlock toBlock w2 = (Inl err3, w3)"
  then show logs: "GetAllSwapLogs e fromBlock toBlock w1 = (Inr [], w3)"
    by (simp add: GetAllSwapLogs_both_fail)
  show "processNewBlocks e lastBlock w = Some (None, toBlock, w3)"
    using assms logs by (simp add: processNewBlocks_def processBlockRange_def logBlocks_returns)
qed

theorem C1_failed_log_fetch_advances_watermark_witness:
  "Client_BlockNumber logsDownEnv emptyWorld = (Inr 5, emptyWorld\<lparr>trace := [ReqBlockNumber]\<rparr>) \<and>
   selectRange 0 5 (BatchSize (cfg logsDownEnv)) = Some (1, 5) \<and>
   (5 :: u64) \<noteq> - 1 \<and> (5 :: u64) - 1 + 1 \<noteq> 0 \<and>
   EnableUniswapV2 (cfg logsDownEnv) \<and> EnableUniswapV3 (cfg logsDownEnv) \<and>
   v2_GetSwapLogs logsDownEnv 1 5 (emptyWorld\<lparr>trace := [ReqBlockNumber]\<rparr>) =
     (Inl (Errorf ''failed to get logs'' (Some (NodeError ''connection refused''))),
      emptyWorld\<lparr>trace := [ReqBlockNumber] @ replicate 3 (ReqFilterLogs 1 5 V2_SwapEventSignature)\<rparr>) \<and>
   v3_GetSwapLogs logsDownEnv 1 5
       (emptyWorld\<lparr>trace := [ReqBlockNumber] @ replicate 3 (ReqFilterLogs 1 5 V2_SwapEventSignature)\<rparr>) =
     (Inl (Errorf ''failed to get logs'' (Some (NodeError ''connection refused''))),
      emptyWorld\<lparr>trace := [ReqBlockNumber] @ replicate 3 (ReqFilterLogs 1 5 V2_SwapEventSignature)
                              @ replicate 3 (ReqFilterLogs 1 5 V3_SwapEventSignature)\<rparr>) \<and>
   GetAllSwapLogs logsDownEnv 1 5 (emptyWorld\<lparr>trace := [ReqBlockNumber]\<rparr>) =
     (Inr [], emptyWorld\<lparr>trace := [ReqBlockNumber] @ replicate 3 (ReqFilterLogs 1 5 V2_SwapEventSignature)
                              @ replicate 3 (ReqFilterLogs 1 5 V3_SwapEventSignature)\<rparr>) \<and>
   processNewBlocks logsDownEnv 0 emptyWorld =
     Some (None, 5, emptyWorld\<lparr>trace := [ReqBlockNumber] @ replicate 3 (ReqFilterLogs 1 5 V2_SwapEventSignature)
                              @ replicate 3 (ReqFilterLogs 1 5 V3_SwapEventSignature)\<rparr>)"
proof -
  have head: "Client_BlockNumber logsDownEnv emptyWorld = (Inr 5, emptyWorld\<lparr>trace := [ReqBlockNumber]\<rparr>)"
    by (simp add: logsDownEnv_def logsDownNode_def defaultConfig_def emptyWorld_def client_defs
        retryLoop_unfold)
  have range: "selectRange 0 5 (BatchSize (cfg logsDownEnv)) = Some (1, 5)"
    by (simp add: selectRange_def logsDownEnv_def defaultConfig_def)
  have flags: "EnableUniswapV2 (cfg logsDownEnv) \<and> EnableUniswapV3 (cfg logsDownEnv)"
    by (simp add: logsDownEnv_def defaultConfig_def)
  have v2: "v2_GetSwapLogs logsDownEnv 1 5 (emptyWorld\<lparr>trace := [ReqBlockNumber]\<rparr>) =
     (Inl (Errorf ''failed to get logs'' (Some (NodeError ''connection refused''))),
      emptyWorld\<lparr>trace := [ReqBlockNumber] @ replicate 3 (ReqFilterLogs 1 5 V2_SwapEventSignature)\<rparr>)"
    by (simp add: logsDownEnv_def logsDownNode_def defaultConfig_def emptyWorld_def client_defs
        retryLoop_unfold v2_GetSwapLogs_def numeral_3_eq_3)
  have v3: "v3_GetSwapLogs logsDownEnv 1 5
       (emptyWorld\<lparr>trace := [ReqBlockNumber] @ replicate 3 (ReqFilterLogs 1 5 V2_SwapEventSignature)\<rparr>) =
     (Inl (Errorf ''failed to get logs'' (Some (NodeError ''connection refused''))),
      emptyWorld\<lparr>trace := [ReqBlockNumber] @ replicate 3 (ReqFilterLogs 1 5 V2_SwapEventSignature)
                              @ replicate 3 (ReqFilterLogs 1 5 V3_SwapEventSignature)\<rparr>)"
    by (simp add: logsDownEnv_def logsDownNode_def defaultConfig_def emptyWorld_def client_defs
        retryLoop_unfold v3_GetSwapLogs_def numeral_3_eq_3)
  have regular: "(5 :: u64) \<noteq> - 1" "(5 :: u64) - 1 + 1 \<noteq> 0"
    by simp_all
  from C1_failed_log_fetch_advances_watermark [OF head range regular] flags v2 v3
  have "GetAllSwapLogs logsDownEnv 1 5 (emptyWorld\<lparr>trace := [ReqBlockNumber]\<rparr>) =
     (Inr [], emptyWorld\<lparr>trace := [ReqBlockNumber] @ replicate 3 (ReqFilterLogs 1 5 V2_SwapEventSignature)
                              @ replicate 3 (ReqFilterLogs 1 5 V3_SwapEventSignature)\<rparr>) \<and>
   processNewBlocks logsDownEnv 0 emptyWorld =
     Some (None, 5, emptyWorld\<lparr>trace := [ReqBlockNumber] @ replicate 3 (ReqFilterLogs 1 5 V2_SwapEventSignature)
                              @ replicate 3 (ReqFilterLogs 1 5 V3_SwapEventSignature)\<rparr>)"
    by blast
  with head range regular flags v2 v3 show ?thesis by blast
qed

text \<open>
  C4 (evaluated at the failing input). With watermark 0, head 11 and batch size 10 the
  selected range is 1..11, eleven blocks, although \<open>min head (watermark + batch size)\<close> is
  10: the guard \<open>toBlock - fromBlock > BatchSize\<close> lets a range of \<open>BatchSize + 1\<close> blocks
  through, while the branch it guards cuts a longer range to \<open>BatchSize\<close> blocks (head 12
  gives 1..10). The tick sends the log filter for 1..11 and moves the watermark to 11.
\<close>

theorem C4_range_exceeds_batch_size:
  "selectRange 0 11 10 = Some (1, 11) \<and> (11 :: u64) \<noteq> min 11 (0 + 10) \<and>
   selectRange 0 12 10 = Some (1, 10) \<and>
   processNewBlocks quietEnv 0 emptyWorld =
     Some (None, 11, emptyWorld\<lparr>trace := [ReqBlockNumber,
        ReqFilterLogs 1 11 V2_SwapEventSignature, ReqFilterLogs 1 11 V3_SwapEventSignature]\<rparr>)"
  by (simp add: processNewBlocks_def quietEnv_def readmeConfig_def defaultConfig_def quietNode_def
      emptyWorld_def client_defs retryLoop_unfold selectRange_def processBlockRange_def
      GetAllSwapLogs_def v2_GetSwapLogs_def v3_GetSwapLogs_def logBlocks_returns)

lemma unat_plus_no_wrap:
  fixes x y :: u64
  assumes "unat x + unat y < 2 ^ 64"
  shows "unat (x + y) = unat x + unat y"
proof -
  have "unat x + unat y < 2 ^ LENGTH(64)" using assms by simp
  then show ?thesis by (rule unat_add_lem [THEN iffD1])
qed

text \<open>
  What the selection does when nothing wraps around (the batch size is not negative and
  watermark + batch size + 1 fits 64 bits): the upper bound is
  \<open>min head (watermark + batch size)\<close>, except when the head is exactly
  \<open>watermark + batch size + 1\<close>, where it is the head.
\<close>

lemma selectRange_no_wrap:
  assumes nw: "unat lastBlock + nat batchSize + 1 < 2 ^ 64" and pos: "0 \<le> batchSize"
  shows "selectRange lastBlock currentBlock batchSize =
     (if unat currentBlock < unat lastBlock + 1 then None
      else if unat currentBlock = unat lastBlock + nat batchSize + 1
           then Some (lastBlock + 1, currentBlock)
      else Some (lastBlock + 1, word_of_nat (min (unat currentBlock) (unat lastBlock + nat batchSize))))"
proof -
  define b :: u64 where "b = word_of_int batchSize"
  define f :: u64 where "f = lastBlock + 1"
  have bw: "b = word_of_nat (nat batchSize)"
    unfolding b_def using pos by (rule word_of_int_nat)
  have "nat batchSize < 2 ^ LENGTH(64)" using nw by simp
  then have ub: "unat b = nat batchSize"
    unfolding bw by (simp add: unat_of_nat)
  have "unat lastBlock + unat (1 :: u64) < 2 ^ 64" using nw by simp
  then have "unat (lastBlock + 1) = unat lastBlock + unat (1 :: u64)" by (rule unat_plus_no_wrap)
  then have uf: "unat f = unat lastBlock + 1" unfolding f_def by simp
  have sel: "selectRange lastBlock currentBlock batchSize =
      (if currentBlock < f then None
       else if currentBlock - f > b then Some (f, f + b - 1) else Some (f, currentBlock))"
    unfolding selectRange_def Let_def b_def f_def by simp
  have tob: "f + b - 1 = word_of_nat (unat lastBlock + nat batchSize)"
    unfolding f_def bw by simp
  show ?thesis
  proof (cases "currentBlock < f")
    case True
    then have "unat currentBlock < unat lastBlock + 1" using uf by (simp add: word_less_nat_alt)
    then show ?thesis using True sel by simp
  next
    case False
    then have ule: "unat f \<le> unat currentBlock" by (simp add: word_less_nat_alt)
    then have nlt: "\<not> unat currentBlock < unat lastBlock + 1" using uf by simp
    have "f \<le> currentBlock" using False by simp
    then have usub: "unat (currentBlock - f) = unat currentBlock - unat f" by (rule unat_sub)
    have cmp: "(currentBlock - f > b) = (nat batchSize < unat currentBlock - (unat lastBlock + 1))"
      using ub usub uf by (simp add: word_less_nat_alt)
    show ?thesis
    proof (cases "currentBlock - f > b")
      case True
      then have g: "nat batchSize < unat currentBlock - (unat lastBlock + 1)" using cmp by simp
      then have m: "min (unat currentBlock) (unat lastBlock + nat batchSize) = unat lastBlock + nat batchSize"
        by simp
      have ne: "unat currentBlock \<noteq> unat lastBlock + nat batchSize + 1" using g by simp
      have "selectRange lastBlock currentBlock batchSize = Some (f, f + b - 1)"
        using sel False True by simp
      then have "selectRange lastBlock currentBlock batchSize =
          Some (f, word_of_nat (unat lastBlock + nat batchSize))"
        by (simp only: tob)
      then show ?thesis unfolding f_def using nlt ne m by simp
    next
      case nb: False
      then have g: "\<not> nat batchSize < unat currentBlock - (unat lastBlock + 1)" using cmp by simp
      have s: "selectRange lastBlock currentBlock batchSize = Some (f, currentBlock)"
        using sel False nb by simp
      show ?thesis
      proof (cases "unat currentBlock = unat lastBlock + nat batchSize + 1")
        case True
        then show ?thesis unfolding s f_def using nlt by simp
      next
        case ne: False
        then have "min (unat currentBlock) (unat lastBlock + nat batchSize) = unat currentBlock"
          using g nlt by simp
        then show ?thesis unfolding s f_def using nlt ne by simp
      qed
    qed
  qed
qed

subsection \<open>The detector on short inputs\<close>

text \<open>
  C10. For a swap list with fewer than two swaps, \<open>DetectArbitrage\<close> returns no finding
  and no error; it sends no request and leaves the state as it was.
\<close>

theorem C10_fewer_than_two_swaps:
  "length swaps < 2 \<Longrightarrow> DetectArbitrage e txHash swaps w = (Inr [], w)"
  by (simp add: DetectArbitrage_def)

theorem C10_fewer_than_two_swaps_witness:
  "length [buyLeg] < 2 \<and>
   DetectArbitrage quietEnv 7 [buyLeg] emptyWorld = (Inr [], emptyWorld)"
  using C10_fewer_than_two_swaps [of "[buyLeg]" quietEnv 7 emptyWorld]
  by simp

subsection \<open>Gas cost and net profit\<close>

lemma sint_eq_uint_small:
  fixes w :: "'a::len word"
  assumes "uint w < 2 ^ (LENGTH('a) - Suc 0)"
  shows "sint w = uint w"
  unfolding sint_uint using assms
  by (intro signed_take_bit_int_eq_self) (auto intro: order_trans [of _ 0])

lemma sint_gas_below_2p63:
  fixes g :: u64
  assumes "unat g < 2 ^ 63"
  shows "sint g = int (unat g)"
proof -
  have "int (unat g) < int (2 ^ 63)" using assms by (simp only: of_nat_less_iff)
  then have "uint g < 2 ^ 63" by simp
  then have "uint g < 2 ^ (LENGTH(64) - Suc 0)" by simp
  then have "sint g = uint g" by (rule sint_eq_uint_small)
  then show ?thesis by simp
qed

lemma addGasInfo_both_fetched:
  assumes "Client_TransactionReceipt e txHash w = (Inr gasUsed, w1)"
      and "Client_GetTransaction e txHash w1 = (Inr gasPrice, w2)"
  shows "addGasInfo e txHash arb w =
     (arb\<lparr>GasUsed := gasUsed, GasPrice := Some gasPrice,
           NetProfitWei := Some (Profit arb - sint gasUsed * gasPrice)\<rparr>, w2)"
  using assms by (simp add: addGasInfo_def Let_def)

text \<open>
  When both fetches succeed and the gas used is below \<open>2^63\<close>, the net profit is the gross
  profit minus gas used times gas price.
\<close>

lemma addGasInfo_net_profit:
  assumes "Client_TransactionReceipt e txHash w = (Inr gasUsed, w1)"
      and "Client_GetTransaction e txHash w1 = (Inr gasPrice, w2)"
      and "unat gasUsed < 2 ^ 63"
  shows "NetProfitWei (fst (addGasInfo e txHash arb w)) =
           Some (Profit arb - int (unat gasUsed) * gasPrice)"
proof -
  have "sint gasUsed = int (unat gasUsed)" using assms(3) by (rule sint_gas_below_2p63)
  then show ?thesis by (simp add: addGasInfo_both_fetched [OF assms(1,2)])
qed

text \<open>When either fetch fails the net profit keeps the value it had (unset for a new finding).\<close>

lemma addGasInfo_receipt_fails:
  assumes "Client_TransactionReceipt e txHash w = (Inl err, w1)"
  shows "addGasInfo e txHash arb w = (arb, w1)"
  using assms by (simp add: addGasInfo_def)

lemma addGasInfo_transaction_fails:
  assumes "Client_TransactionReceipt e txHash w = (Inr gasUsed, w1)"
      and "Client_GetTransaction e txHash w1 = (Inl err, w2)"
  shows "addGasInfo e txHash arb w = (arb\<lparr>GasUsed := gasUsed\<rparr>, w2)"
  using assms by (simp add: addGasInfo_def Let_def)

lemma IsProfitable_unset:
  "NetProfitWei arb = None \<Longrightarrow> IsProfitable arb = (0 < Profit arb)"
  by (simp add: IsProfitable_def)

lemma IsProfitable_set:
  "NetProfitWei arb = Some n \<Longrightarrow> IsProfitable arb = (0 < n)"
  by (simp add: IsProfitable_def)


subsection \<open>Cyclic detection\<close>

lemma pathConnected_iff:
  "pathConnected fs \<longleftrightarrow> (\<forall>i. Suc i < length fs \<longrightarrow> tokenOut (fs ! i) = tokenIn (fs ! Suc i))"
proof (induction fs rule: pathConnected.induct)
  case (1 f g rest)
  show ?case
  proof
    assume pc: "pathConnected (f # g # rest)"
    then have fg: "tokenOut f = tokenIn g" and r: "pathConnected (g # rest)"
      by (auto split: if_splits)
    from r 1 fg have ih: "\<forall>i. Suc i < length (g # rest) \<longrightarrow> tokenOut ((g # rest) ! i) = tokenIn ((g # rest) ! Suc i)"
      by simp
    show "\<forall>i. Suc i < length (f # g # rest) \<longrightarrow> tokenOut ((f # g # rest) ! i) = tokenIn ((f # g # rest) ! Suc i)"
    proof (intro allI impI)
      fix i assume "Suc i < length (f # g # rest)"
      then show "tokenOut ((f # g # rest) ! i) = tokenIn ((f # g # rest) ! Suc i)"
        using fg ih by (cases i) auto
    qed
  next
    assume a: "\<forall>i. Suc i < length (f # g # rest) \<longrightarrow> tokenOut ((f # g # rest) ! i) = tokenIn ((f # g # rest) ! Suc i)"
    then have fg: "tokenOut f = tokenIn g" by (auto dest: spec [of _ 0])
    have "\<forall>i. Suc i < length (g # rest) \<longrightarrow> tokenOut ((g # rest) ! i) = tokenIn ((g # rest) ! Suc i)"
    proof (intro allI impI)
      fix i assume "Suc i < length (g # rest)"
      then show "tokenOut ((g # rest) ! i) = tokenIn ((g # rest) ! Suc i)"
        using a [rule_format, of "Suc i"] by simp
    qed
    with 1 fg show "pathConnected (f # g # rest)" by simp
  qed
qed simp_all

lemma buildFlows_filter:
  "buildFlows swaps = filter (\<lambda>f. tokenIn f \<noteq> 0 \<and> tokenOut f \<noteq> 0) (map tokenFlowOf swaps)"
  by (induction swaps) (simp_all add: Let_def)

lemma length_buildFlows: "length (buildFlows swaps) \<le> length swaps"
  by (simp add: buildFlows_filter)


lemma addGasInfo_fields:
  assumes "addGasInfo e txHash arb w = (arb', w')"
  shows "Profit arb' = Profit arb \<and> Path arb' = Path arb \<and> TokenStart arb' = TokenStart arb \<and>
         TokenEnd arb' = TokenEnd arb \<and> ProfitToken arb' = ProfitToken arb \<and>
         AmountIn arb' = AmountIn arb \<and> AmountOut arb' = AmountOut arb \<and>
         Arbitrageur arb' = Arbitrageur arb \<and> Arb_TxHash arb' = Arb_TxHash arb \<and>
         Arb_BlockNumber arb' = Arb_BlockNumber arb"
  using assms by (auto simp: addGasInfo_def Let_def split: prod.splits sum.splits)

lemma length_addGasInfoAll:
  "addGasInfoAll e txHash arbs w = (arbs', w') \<Longrightarrow> length arbs' = length arbs"
  by (induction arbs arbitrary: arbs' w w') (auto split: prod.splits)

lemma DetectArbitrage_shape:
  assumes "\<not> length swaps < 2"
  shows "\<exists>cyc cross w1 w2.
           DetectArbitrage e txHash swaps w = (Inr (cyc @ cross), w2) \<and>
           (case detectCyclicArbitrage (sort_key LogIndex swaps) of
              None \<Rightarrow> cyc = [] \<and> w1 = w
            | Some arb \<Rightarrow> (\<exists>arb'. cyc = [arb'] \<and> addGasInfo e txHash arb w = (arb', w1))) \<and>
           addGasInfoAll e txHash
             (detectCrossDEXArbitrage (AddressHex e) (sort_key LogIndex swaps)) w1 = (cross, w2)"
  using assms
  by (auto simp: DetectArbitrage_def Let_def split: option.splits prod.splits)

lemma DetectArbitrage_at_most_one_cyclic:
  assumes "\<not> length swaps < 2"
  shows "\<exists>cyc cross w'.
           DetectArbitrage e txHash swaps w = (Inr (cyc @ cross), w') \<and> length cyc \<le> 1 \<and>
           length cross = length (detectCrossDEXArbitrage (AddressHex e) (sort_key LogIndex swaps))"
proof -
  from DetectArbitrage_shape [OF assms, of e txHash w]
  obtain cyc cross w1 w2 where
    d: "DetectArbitrage e txHash swaps w = (Inr (cyc @ cross), w2)" and
    c: "case detectCyclicArbitrage (sort_key LogIndex swaps) of
              None \<Rightarrow> cyc = [] \<and> w1 = w
            | Some arb \<Rightarrow> (\<exists>arb'. cyc = [arb'] \<and> addGasInfo e txHash arb w = (arb', w1))" and
    x: "addGasInfoAll e txHash
             (detectCrossDEXArbitrage (AddressHex e) (sort_key LogIndex swaps)) w1 = (cross, w2)"
    by blast
  have "length cyc \<le> 1" using c by (auto split: option.splits)
  moreover have "length cross = length (detectCrossDEXArbitrage (AddressHex e) (sort_key LogIndex swaps))"
    using x by (rule length_addGasInfoAll)
  ultimately show ?thesis using d by blast
qed

text \<open>
  C2. For a swap list with at least two derived token flows, \<open>detectCyclicArbitrage\<close>
  yields a finding if and only if the first flow's input token is the last flow's output
  token, every flow's output token is the next flow's input token, and the last flow's
  output amount exceeds the first flow's input amount. The finding's profit is that
  difference, its start, end and profit token are the first flow's input token, and its
  path is the whole swap list. \<open>DetectArbitrage\<close> returns at most one cyclic finding,
  followed by the cross-venue findings.
\<close>

theorem C2_cyclic_detection:
  assumes "2 \<le> length (buildFlows swaps)"
  shows "(detectCyclicArbitrage swaps \<noteq> None \<longleftrightarrow>
            tokenIn (buildFlows swaps ! 0) = tokenOut (last (buildFlows swaps)) \<and>
            (\<forall>i. Suc i < length (buildFlows swaps) \<longrightarrow>
                 tokenOut (buildFlows swaps ! i) = tokenIn (buildFlows swaps ! Suc i)) \<and>
            amountIn (buildFlows swaps ! 0) < amountOut (last (buildFlows swaps))) \<and>
         (\<forall>arb. detectCyclicArbitrage swaps = Some arb \<longrightarrow>
            Profit arb = amountOut (last (buildFlows swaps)) - amountIn (buildFlows swaps ! 0) \<and>
            TokenStart arb = tokenIn (buildFlows swaps ! 0) \<and>
            TokenEnd arb = tokenIn (buildFlows swaps ! 0) \<and>
            ProfitToken arb = tokenIn (buildFlows swaps ! 0) \<and>
            Path arb = swaps) \<and>
         (\<exists>cyc cross w'.
            DetectArbitrage e txHash swaps w = (Inr (cyc @ cross), w') \<and> length cyc \<le> 1 \<and>
            length cross = length (detectCrossDEXArbitrage (AddressHex e) (sort_key LogIndex swaps)))"
proof -
  let ?fs = "buildFlows swaps"
  have ne: "?fs \<noteq> []" using assms by auto
  have l: "?fs ! (length ?fs - 1) = last ?fs" using ne by (simp add: last_conv_nth)
  have s: "\<not> length swaps < 2" using assms length_buildFlows [of swaps] by simp
  have f: "\<not> length ?fs < 2" using assms by simp
  have "(detectCyclicArbitrage swaps \<noteq> None \<longleftrightarrow>
            tokenIn (?fs ! 0) = tokenOut (last ?fs) \<and>
            (\<forall>i. Suc i < length ?fs \<longrightarrow> tokenOut (?fs ! i) = tokenIn (?fs ! Suc i)) \<and>
            amountIn (?fs ! 0) < amountOut (last ?fs)) \<and>
         (\<forall>arb. detectCyclicArbitrage swaps = Some arb \<longrightarrow>
            Profit arb = amountOut (last ?fs) - amountIn (?fs ! 0) \<and>
            TokenStart arb = tokenIn (?fs ! 0) \<and>
            TokenEnd arb = tokenIn (?fs ! 0) \<and>
            ProfitToken arb = tokenIn (?fs ! 0) \<and>
            Path arb = swaps)"
    using s f l by (auto simp: detectCyclicArbitrage_def Let_def pathConnected_iff [symmetric])
  then show ?thesis
    using DetectArbitrage_at_most_one_cyclic [OF s, of e txHash w] by blast
qed


lemma buildFlows_sample: "buildFlows [buyLeg, sellLeg] =
   [\<lparr>tokenIn = WETH, tokenOut = USDC, amountIn = 1000000, amountOut = 2000\<rparr>,
    \<lparr>tokenIn = USDC, tokenOut = WETH, amountIn = 2000, amountOut = 1050000\<rparr>]"
  by (simp add: buyLeg_def sellLeg_def sampleSwap_def tokenFlowOf_def WETH_def USDC_def)

theorem C2_cyclic_detection_witness:
  "2 \<le> length (buildFlows [buyLeg, sellLeg]) \<and>
   tokenIn (buildFlows [buyLeg, sellLeg] ! 0) = tokenOut (last (buildFlows [buyLeg, sellLeg])) \<and>
   tokenOut (buildFlows [buyLeg, sellLeg] ! 0) = tokenIn (buildFlows [buyLeg, sellLeg] ! 1) \<and>
   amountIn (buildFlows [buyLeg, sellLeg] ! 0) < amountOut (last (buildFlows [buyLeg, sellLeg])) \<and>
   detectCyclicArbitrage [buyLeg, sellLeg] \<noteq> None \<and>
   Profit (the (detectCyclicArbitrage [buyLeg, sellLeg])) = 50000 \<and>
   TokenStart (the (detectCyclicArbitrage [buyLeg, sellLeg])) = WETH \<and>
   TokenEnd (the (detectCyclicArbitrage [buyLeg, sellLeg])) = WETH \<and>
   ProfitToken (the (detectCyclicArbitrage [buyLeg, sellLeg])) = WETH"
proof -
  have two: "2 \<le> length (buildFlows [buyLeg, sellLeg])"
    unfolding buildFlows_sample by simp
  have conn: "\<forall>i. Suc i < length (buildFlows [buyLeg, sellLeg]) \<longrightarrow>
      tokenOut (buildFlows [buyLeg, sellLeg] ! i) = tokenIn (buildFlows [buyLeg, sellLeg] ! Suc i)"
    unfolding buildFlows_sample by simp
  have ends: "tokenIn (buildFlows [buyLeg, sellLeg] ! 0) = tokenOut (last (buildFlows [buyLeg, sellLeg]))"
    unfolding buildFlows_sample by simp
  have gain: "amountIn (buildFlows [buyLeg, sellLeg] ! 0) < amountOut (last (buildFlows [buyLeg, sellLeg]))"
    unfolding buildFlows_sample by simp
  from C2_cyclic_detection [OF two, of quietEnv 7 emptyWorld] ends conn gain
  obtain arb where a: "detectCyclicArbitrage [buyLeg, sellLeg] = Some arb" by blast
  with C2_cyclic_detection [OF two, of quietEnv 7 emptyWorld]
  have "Profit arb = amountOut (last (buildFlows [buyLeg, sellLeg])) - amountIn (buildFlows [buyLeg, sellLeg] ! 0)
     \<and> TokenStart arb = tokenIn (buildFlows [buyLeg, sellLeg] ! 0)
     \<and> TokenEnd arb = tokenIn (buildFlows [buyLeg, sellLeg] ! 0)
     \<and> ProfitToken arb = tokenIn (buildFlows [buyLeg, sellLeg] ! 0)" by blast
  then have "Profit arb = 50000 \<and> TokenStart arb = WETH \<and> TokenEnd arb = WETH \<and> ProfitToken arb = WETH"
    unfolding buildFlows_sample by simp
  with a two ends gain show ?thesis unfolding buildFlows_sample by simp
qed

subsection \<open>Grouping\<close>

lemma appendToGroup_member:
  "(k', g') \<in> set (appendToGroup k v groups) \<Longrightarrow>
     (k', g') \<in> set groups \<or> (k' = k \<and> (g' = [v] \<or> (\<exists>g. (k, g) \<in> set groups \<and> g' = g @ [v])))"
  by (induction k v groups rule: appendToGroup.induct) (auto split: if_splits)

lemma appendToGroup_keys:
  "map fst (appendToGroup k v groups) =
     (if k \<in> set (map fst groups) then map fst groups else map fst groups @ [k])"
  by (induction k v groups rule: appendToGroup.induct) auto

lemma appendToGroup_has:
  "\<exists>g. (k, g) \<in> set (appendToGroup k v groups) \<and> v \<in> set g"
  by (induction k v groups rule: appendToGroup.induct) auto

lemma appendToGroup_keeps:
  "(k', g) \<in> set groups \<Longrightarrow> \<exists>g'. (k', g') \<in> set (appendToGroup k v groups) \<and> set g \<subseteq> set g'"
  by (induction k v groups rule: appendToGroup.induct) auto

lemma groupBy_snoc: "groupBy kf (xs @ [x]) = appendToGroup (kf x) x (groupBy kf xs)"
  by (simp add: groupBy_def)

lemma groupBy_member:
  "(k, g) \<in> set (groupBy kf xs) \<Longrightarrow> set g \<subseteq> set xs \<and> (\<forall>x\<in>set g. kf x = k)"
proof (induction xs arbitrary: k g rule: rev_induct)
  case Nil
  then show ?case by (simp add: groupBy_def)
next
  case (snoc x xs)
  from snoc.prems have "(k, g) \<in> set (appendToGroup (kf x) x (groupBy kf xs))"
    by (simp add: groupBy_snoc)
  then consider "(k, g) \<in> set (groupBy kf xs)" | "k = kf x" "g = [x]"
    | g0 where "k = kf x" "(kf x, g0) \<in> set (groupBy kf xs)" "g = g0 @ [x]"
    using appendToGroup_member by fastforce
  then show ?case
  proof cases
    case 1
    with snoc.IH show ?thesis by fastforce
  next
    case 2
    then show ?thesis by simp
  next
    case 3
    with snoc.IH [of "kf x" g0] show ?thesis by auto
  qed
qed

lemma groupBy_distinct_keys: "distinct (map fst (groupBy kf xs))"
  by (induction xs rule: rev_induct) (simp_all add: groupBy_def appendToGroup_keys)

lemma groupBy_covers:
  "x \<in> set xs \<Longrightarrow> \<exists>g. (kf x, g) \<in> set (groupBy kf xs) \<and> x \<in> set g"
proof (induction xs rule: rev_induct)
  case Nil
  then show ?case by simp
next
  case (snoc y ys)
  show ?case
  proof (cases "x = y")
    case True
    then show ?thesis using appendToGroup_has [of "kf y" y "groupBy kf ys"] by (simp add: groupBy_snoc)
  next
    case False
    with snoc obtain g where "(kf x, g) \<in> set (groupBy kf ys)" "x \<in> set g" by auto
    then show ?thesis
      using appendToGroup_keeps [of "kf x" g "groupBy kf ys" "kf y" y]
      by (auto simp: groupBy_snoc)
  qed
qed

lemma groupByPair_groupBy: "groupByPair hex swaps = groupBy (pairKeyOf hex) swaps"
  by (simp add: groupByPair_def groupBy_def)

lemma findLegs_find:
  "findLegs g b s =
     ((case b of Some x \<Rightarrow> Some x | None \<Rightarrow> find isWethBuy g),
      (case s of Some y \<Rightarrow> Some y
       | None \<Rightarrow> find (\<lambda>x. (Token0 x = WETH \<or> Token1 x = WETH) \<and> \<not> isWethBuy x) g))"
proof (induction g arbitrary: b s)
  case Nil
  then show ?case by (simp split: option.splits)
next
  case (Cons x xs)
  have "isWethBuy x \<Longrightarrow> Token0 x = WETH \<or> Token1 x = WETH"
    by (auto simp: isWethBuy_def)
  then show ?case
    by (cases b; cases s) (auto simp: Cons.IH)
qed

lemma crossDEXForPair_Some:
  assumes "crossDEXForPair g = Some arb"
  shows "\<exists>buy sell.
     2 \<le> card (Pool ` set g) \<and>
     find isWethBuy g = Some buy \<and>
     find (\<lambda>x. (Token0 x = WETH \<or> Token1 x = WETH) \<and> \<not> isWethBuy x) g = Some sell \<and>
     Pool buy \<noteq> Pool sell \<and>
     Path arb = [buy, sell] \<and>
     AmountIn arb = (if Token0 buy = WETH then Amount0In buy else Amount1In buy) \<and>
     AmountOut arb = (if Token0 sell = WETH then Amount0Out sell else Amount1Out sell) \<and>
     Profit arb = AmountOut arb - AmountIn arb \<and> 0 < Profit arb \<and>
     TokenStart arb = WETH \<and> TokenEnd arb = WETH \<and> ProfitToken arb = WETH"
proof -
  have c: "card (Pool ` set g) = length (remdups (map Pool g))"
    by (metis length_remdups_card_conv set_map)
  have n1: "\<not> length g < 2" and n2: "\<not> length (remdups (map Pool g)) < 2"
    using assms by (auto simp: crossDEXForPair_def split: if_splits)
  then have body: "(case findLegs g None None of
           (Some buySwap, Some sellSwap) \<Rightarrow>
             if Pool buySwap \<noteq> Pool sellSwap then
               (let wethIn = (if Token0 buySwap = WETH then Amount0In buySwap else Amount1In buySwap);
                    wethOut = (if Token0 sellSwap = WETH then Amount0Out sellSwap else Amount1Out sellSwap) in
                if wethOut > wethIn then
                  Some \<lparr>Arb_TxHash = TxHash buySwap,
                        Arb_BlockNumber = BlockNumber buySwap,
                        Arbitrageur = Sender buySwap,
                        Path = [buySwap, sellSwap],
                        TokenStart = WETH,
                        TokenEnd = WETH,
                        AmountIn = wethIn,
                        AmountOut = wethOut,
                        Profit = wethOut - wethIn,
                        ProfitToken = WETH,
                        GasUsed = 0,
                        GasPrice = None,
                        NetProfitWei = None\<rparr>
                else None)
             else None
         | _ \<Rightarrow> None) = Some arb"
    using assms by (simp add: crossDEXForPair_def)
  obtain b s where legs: "findLegs g None None = (b, s)" by (cases "findLegs g None None")
  from body legs obtain buy sell where bs: "b = Some buy" "s = Some sell"
    by (cases b; cases s) simp_all
  have fb: "find isWethBuy g = Some buy"
    and fs: "find (\<lambda>x. (Token0 x = WETH \<or> Token1 x = WETH) \<and> \<not> isWethBuy x) g = Some sell"
    using legs bs by (simp_all add: findLegs_find)
  from body legs bs have pools: "Pool buy \<noteq> Pool sell"
    by (auto split: if_splits)
  define wethIn where "wethIn = (if Token0 buy = WETH then Amount0In buy else Amount1In buy)"
  define wethOut where "wethOut = (if Token0 sell = WETH then Amount0Out sell else Amount1Out sell)"
  from body legs bs pools have gain: "wethIn < wethOut"
    unfolding wethIn_def wethOut_def by (simp add: Let_def split: if_splits)
  from body legs bs pools gain have arb: "arb =
      \<lparr>Arb_TxHash = TxHash buy, Arb_BlockNumber = BlockNumber buy, Arbitrageur = Sender buy,
       Path = [buy, sell], TokenStart = WETH, TokenEnd = WETH, AmountIn = wethIn,
       AmountOut = wethOut, Profit = wethOut - wethIn, ProfitToken = WETH,
       GasUsed = 0, GasPrice = None, NetProfitWei = None\<rparr>"
    unfolding wethIn_def wethOut_def by (simp add: Let_def)
  have "2 \<le> card (Pool ` set g)" using n2 c by simp
  moreover have "Path arb = [buy, sell]" "AmountIn arb = wethIn" "AmountOut arb = wethOut"
    "Profit arb = AmountOut arb - AmountIn arb" "0 < Profit arb"
    "TokenStart arb = WETH" "TokenEnd arb = WETH" "ProfitToken arb = WETH"
    using gain by (simp_all add: arb)
  ultimately show ?thesis using fb fs pools unfolding wethIn_def wethOut_def by blast
qed

lemma set_map_filter_iff:
  "y \<in> set (List.map_filter f xs) \<longleftrightarrow> (\<exists>x\<in>set xs. f x = Some y)"
  by (induction xs) (auto split: option.splits)

lemma detectCrossDEX_member:
  "arb \<in> set (detectCrossDEXArbitrage hex swaps) \<longleftrightarrow>
     (\<exists>pair g. (pair, g) \<in> set (groupByPair hex swaps) \<and> crossDEXForPair g = Some arb)"
proof
  assume "arb \<in> set (detectCrossDEXArbitrage hex swaps)"
  then obtain x where x: "x \<in> set (groupByPair hex swaps)"
      and c: "(case x of (pair, g) \<Rightarrow> crossDEXForPair g) = Some arb"
    unfolding detectCrossDEXArbitrage_def set_map_filter_iff by blast
  obtain pair g where xe: "x = (pair, g)" by (cases x)
  from x c show "\<exists>pair g. (pair, g) \<in> set (groupByPair hex swaps) \<and> crossDEXForPair g = Some arb"
    unfolding xe by (intro exI [of _ pair] exI [of _ g]) simp
next
  assume "\<exists>pair g. (pair, g) \<in> set (groupByPair hex swaps) \<and> crossDEXForPair g = Some arb"
  then obtain pair g where pg: "(pair, g) \<in> set (groupByPair hex swaps)"
      and c: "crossDEXForPair g = Some arb" by blast
  have "\<exists>x\<in>set (groupByPair hex swaps). (case x of (pair, g) \<Rightarrow> crossDEXForPair g) = Some arb"
    by (rule bexI [OF _ pg]) (simp add: c)
  then show "arb \<in> set (detectCrossDEXArbitrage hex swaps)"
    unfolding detectCrossDEXArbitrage_def set_map_filter_iff .
qed

subsection \<open>Cross-venue detection\<close>

text \<open>
  C6. Every finding of \<open>detectCrossDEXArbitrage\<close> comes from one group of swaps with the
  same pair key; the swaps of that group touch at least two distinct pool addresses; the
  buy leg is the first swap of the group that spends the reference token, the sell leg the
  first one that has the reference token among its tokens and does not spend it, and
  their pools differ. The finding's path is buy leg then sell leg, its profit is the
  reference-token amount the sell leg received minus the one the buy leg spent and is
  strictly positive, and its start, end and profit token are the reference token.
\<close>

theorem C6_cross_venue_finding:
  assumes "arb \<in> set (detectCrossDEXArbitrage hex swaps)"
  shows "\<exists>pair g buy sell.
     (pair, g) \<in> set (groupByPair hex swaps) \<and>
     set g \<subseteq> set swaps \<and> (\<forall>x\<in>set g. pairKeyOf hex x = pair) \<and>
     2 \<le> card (Pool ` set g) \<and>
     find isWethBuy g = Some buy \<and>
     find (\<lambda>x. (Token0 x = WETH \<or> Token1 x = WETH) \<and> \<not> isWethBuy x) g = Some sell \<and>
     Pool buy \<noteq> Pool sell \<and>
     Path arb = [buy, sell] \<and>
     AmountIn arb = (if Token0 buy = WETH then Amount0In buy else Amount1In buy) \<and>
     AmountOut arb = (if Token0 sell = WETH then Amount0Out sell else Amount1Out sell) \<and>
     Profit arb = AmountOut arb - AmountIn arb \<and> 0 < Profit arb \<and>
     TokenStart arb = WETH \<and> TokenEnd arb = WETH \<and> ProfitToken arb = WETH"
proof -
  from assms obtain pair g where
    pg: "(pair, g) \<in> set (groupByPair hex swaps)" and x: "crossDEXForPair g = Some arb"
    by (auto simp: detectCrossDEX_member)
  from pg have m: "set g \<subseteq> set swaps \<and> (\<forall>x\<in>set g. pairKeyOf hex x = pair)"
    unfolding groupByPair_groupBy by (rule groupBy_member)
  from crossDEXForPair_Some [OF x] pg m show ?thesis by blast
qed

lemma crossVenue_sample:
  "detectCrossDEXArbitrage knownHex [buyLeg, sellLeg] =
     [\<lparr>Arb_TxHash = 7, Arb_BlockNumber = 1, Arbitrageur = 9, Path = [buyLeg, sellLeg],
       TokenStart = WETH, TokenEnd = WETH, AmountIn = 1000000, AmountOut = 1050000,
       Profit = 50000, ProfitToken = WETH, GasUsed = 0, GasPrice = None, NetProfitWei = None\<rparr>]"
proof -
  have k1: "pairKeyOf knownHex buyLeg = (USDC, WETH)"
    by (simp add: pairKeyOf_def buyLeg_def sampleSwap_def knownHex_def WETH_def USDC_def)
  have k2: "pairKeyOf knownHex sellLeg = (USDC, WETH)"
    by (simp add: pairKeyOf_def sellLeg_def sampleSwap_def knownHex_def WETH_def USDC_def)
  have g: "groupByPair knownHex [buyLeg, sellLeg] = [((USDC, WETH), [buyLeg, sellLeg])]"
    by (simp add: groupByPair_def k1 k2)
  have p: "remdups (map Pool [buyLeg, sellLeg]) = [0x11, 0x12]"
    by (simp add: buyLeg_def sellLeg_def sampleSwap_def)
  have b: "isWethBuy buyLeg" "\<not> isWethBuy sellLeg" "Token1 buyLeg = WETH" "Token1 sellLeg = WETH"
    "Token0 buyLeg \<noteq> WETH" "Token0 sellLeg \<noteq> WETH"
    by (simp_all add: isWethBuy_def buyLeg_def sellLeg_def sampleSwap_def WETH_def USDC_def)
  have l: "findLegs [buyLeg, sellLeg] None None = (Some buyLeg, Some sellLeg)"
    using b by simp
  have x: "crossDEXForPair [buyLeg, sellLeg] =
     Some \<lparr>Arb_TxHash = 7, Arb_BlockNumber = 1, Arbitrageur = 9, Path = [buyLeg, sellLeg],
       TokenStart = WETH, TokenEnd = WETH, AmountIn = 1000000, AmountOut = 1050000,
       Profit = 50000, ProfitToken = WETH, GasUsed = 0, GasPrice = None, NetProfitWei = None\<rparr>"
    unfolding crossDEXForPair_def l p using b
    by (simp add: Let_def) (simp add: buyLeg_def sellLeg_def sampleSwap_def)
  show ?thesis
    by (simp add: detectCrossDEXArbitrage_def g x)
qed

theorem C6_cross_venue_finding_witness:
  "hd (detectCrossDEXArbitrage knownHex [buyLeg, sellLeg])
     \<in> set (detectCrossDEXArbitrage knownHex [buyLeg, sellLeg]) \<and>
   Path (hd (detectCrossDEXArbitrage knownHex [buyLeg, sellLeg])) = [buyLeg, sellLeg] \<and>
   Pool buyLeg \<noteq> Pool sellLeg \<and>
   Profit (hd (detectCrossDEXArbitrage knownHex [buyLeg, sellLeg])) = 50000 \<and>
   0 < Profit (hd (detectCrossDEXArbitrage knownHex [buyLeg, sellLeg])) \<and>
   TokenStart (hd (detectCrossDEXArbitrage knownHex [buyLeg, sellLeg])) = WETH \<and>
   TokenEnd (hd (detectCrossDEXArbitrage knownHex [buyLeg, sellLeg])) = WETH \<and>
   ProfitToken (hd (detectCrossDEXArbitrage knownHex [buyLeg, sellLeg])) = WETH"
proof -
  let ?a = "hd (detectCrossDEXArbitrage knownHex [buyLeg, sellLeg])"
  have m: "?a \<in> set (detectCrossDEXArbitrage knownHex [buyLeg, sellLeg])"
    unfolding crossVenue_sample by simp
  from C6_cross_venue_finding [OF m]
  have "0 < Profit ?a \<and> TokenStart ?a = WETH \<and> TokenEnd ?a = WETH \<and> ProfitToken ?a = WETH"
    by blast
  moreover have "Path ?a = [buyLeg, sellLeg]" "Profit ?a = 50000"
    unfolding crossVenue_sample by simp_all
  moreover have "Pool buyLeg \<noteq> Pool sellLeg"
    by (simp add: buyLeg_def sellLeg_def sampleSwap_def)
  ultimately show ?thesis using m by blast
qed

text \<open>
  C7. The group key of a swap holds its two tokens, the one with the smaller text
  (\<open>Address.Hex\<close>, compared as strings) first. When the order of the texts and the order
  of the addresses as numbers disagree, the key follows the texts: its first token is the
  larger number. A swap with the same two tokens in the other order has the same key,
  and both swaps end up in the same group.
\<close>

theorem C7_pair_key_textual_order:
  "{fst (pairKeyOf hex swap), snd (pairKeyOf hex swap)} = {Token0 swap, Token1 swap} \<and>
   hex (fst (pairKeyOf hex swap)) \<le> hex (snd (pairKeyOf hex swap)) \<and>
   ((hex (Token0 swap) < hex (Token1 swap) \<and> Token1 swap < Token0 swap \<or>
     hex (Token1 swap) < hex (Token0 swap) \<and> Token0 swap < Token1 swap) \<longrightarrow>
      hex (fst (pairKeyOf hex swap)) < hex (snd (pairKeyOf hex swap)) \<and>
      snd (pairKeyOf hex swap) < fst (pairKeyOf hex swap)) \<and>
   (\<forall>swap'. Token0 swap' = Token1 swap \<and> Token1 swap' = Token0 swap \<and>
        (hex (Token0 swap) = hex (Token1 swap) \<longrightarrow> Token0 swap = Token1 swap) \<longrightarrow>
      pairKeyOf hex swap' = pairKeyOf hex swap \<and>
      (swap \<in> set swaps \<and> swap' \<in> set swaps \<longrightarrow>
         (\<exists>g. (pairKeyOf hex swap, g) \<in> set (groupByPair hex swaps) \<and>
              swap \<in> set g \<and> swap' \<in> set g)))"
proof (intro conjI allI impI)
  fix swap' :: Swap
  assume a: "Token0 swap' = Token1 swap \<and> Token1 swap' = Token0 swap \<and>
        (hex (Token0 swap) = hex (Token1 swap) \<longrightarrow> Token0 swap = Token1 swap)"
  then show k: "pairKeyOf hex swap' = pairKeyOf hex swap"
    by (auto simp: pairKeyOf_def)
  assume m: "swap \<in> set swaps \<and> swap' \<in> set swaps"
  from m obtain g where g: "(pairKeyOf hex swap, g) \<in> set (groupByPair hex swaps)" "swap \<in> set g"
    unfolding groupByPair_groupBy using groupBy_covers [of swap swaps "pairKeyOf hex"] by blast
  from m obtain g' where g': "(pairKeyOf hex swap', g') \<in> set (groupByPair hex swaps)" "swap' \<in> set g'"
    unfolding groupByPair_groupBy using groupBy_covers [of swap' swaps "pairKeyOf hex"] by blast
  have "distinct (map fst (groupByPair hex swaps))"
    unfolding groupByPair_groupBy by (rule groupBy_distinct_keys)
  with g(1) g'(1) k have "g' = g"
    by (metis eq_key_imp_eq_value)
  with g g' show "\<exists>g. (pairKeyOf hex swap, g) \<in> set (groupByPair hex swaps) \<and> swap \<in> set g \<and> swap' \<in> set g"
    by blast
qed (auto simp: pairKeyOf_def)

theorem C7_pair_key_textual_order_witness:
  "knownHex (Token1 stethLeg) < knownHex (Token0 stethLeg) \<and>
   Token0 stethLeg < Token1 stethLeg \<and>
   Token0 stethLegFlipped = Token1 stethLeg \<and> Token1 stethLegFlipped = Token0 stethLeg \<and>
   knownHex (Token0 stethLeg) \<noteq> knownHex (Token1 stethLeg) \<and>
   stethLeg \<in> set [stethLeg, stethLegFlipped] \<and> stethLegFlipped \<in> set [stethLeg, stethLegFlipped] \<and>
   knownHex (fst (pairKeyOf knownHex stethLeg)) < knownHex (snd (pairKeyOf knownHex stethLeg)) \<and>
   snd (pairKeyOf knownHex stethLeg) < fst (pairKeyOf knownHex stethLeg) \<and>
   pairKeyOf knownHex stethLegFlipped = pairKeyOf knownHex stethLeg \<and>
   (\<exists>g. (pairKeyOf knownHex stethLeg, g) \<in> set (groupByPair knownHex [stethLeg, stethLegFlipped]) \<and>
        stethLeg \<in> set g \<and> stethLegFlipped \<in> set g)"
proof -
  have t: "Token0 stethLeg = STETH" "Token1 stethLeg = WETH"
    "Token0 stethLegFlipped = WETH" "Token1 stethLegFlipped = STETH"
    by (simp_all add: stethLeg_def stethLegFlipped_def sampleSwap_def)
  have h: "knownHex WETH < knownHex STETH"
    by (simp add: knownHex_def WETH_def STETH_def USDC_def)
  have n: "STETH < WETH"
    by (simp add: WETH_def STETH_def)
  have d: "knownHex (Token1 stethLeg) < knownHex (Token0 stethLeg) \<and> Token0 stethLeg < Token1 stethLeg"
    using h n by (simp add: t)
  have i: "knownHex (Token0 stethLeg) \<noteq> knownHex (Token1 stethLeg)"
    using h by (simp add: t)
  have f: "Token0 stethLegFlipped = Token1 stethLeg \<and> Token1 stethLegFlipped = Token0 stethLeg"
    by (simp add: t)
  have m: "stethLeg \<in> set [stethLeg, stethLegFlipped] \<and> stethLegFlipped \<in> set [stethLeg, stethLegFlipped]"
    by simp
  note key = C7_pair_key_textual_order [of knownHex stethLeg "[stethLeg, stethLegFlipped]"]
  from key d have "knownHex (fst (pairKeyOf knownHex stethLeg)) < knownHex (snd (pairKeyOf knownHex stethLeg)) \<and>
   snd (pairKeyOf knownHex stethLeg) < fst (pairKeyOf knownHex stethLeg)" by blast
  moreover from key f i m have "pairKeyOf knownHex stethLegFlipped = pairKeyOf knownHex stethLeg \<and>
   (\<exists>g. (pairKeyOf knownHex stethLeg, g) \<in> set (groupByPair knownHex [stethLeg, stethLegFlipped]) \<and>
        stethLeg \<in> set g \<and> stethLegFlipped \<in> set g)" by blast
  ultimately show ?thesis using d f i m by blast
qed

subsection \<open>Bytes and two's complement\<close>

lemma foldl_bytes_acc:
  "foldl (\<lambda>acc b. acc * 256 + unat b) a bs = a * 256 ^ length bs + foldl (\<lambda>acc b. acc * 256 + unat b) 0 bs"
proof (induction bs arbitrary: a)
  case Nil
  then show ?case by simp
next
  case (Cons b bs)
  let ?f = "\<lambda>acc b. acc * 256 + unat b"
  have l: "foldl ?f a (b # bs) = (a * 256 + unat b) * 256 ^ length bs + foldl ?f 0 bs"
    using Cons.IH [of "a * 256 + unat b"] by simp
  have r: "foldl ?f 0 (b # bs) = unat b * 256 ^ length bs + foldl ?f 0 bs"
    using Cons.IH [of "unat b"] by simp
  show ?case unfolding l r by (simp add: algebra_simps)
qed

lemma bytesToNat_Cons: "bytesToNat (b # bs) = unat b * 256 ^ length bs + bytesToNat bs"
  using foldl_bytes_acc [of "unat b" bs] by (simp add: bytesToNat_def)

lemma unat_byte_less: "unat (b :: byte) < 256"
  using unsigned_less [of b, where 'a=nat] by simp

lemma bytesToNat_less: "bytesToNat bs < 256 ^ length bs"
proof (induction bs)
  case Nil
  then show ?case by (simp add: bytesToNat_def)
next
  case (Cons b bs)
  have "unat b * 256 ^ length bs + bytesToNat bs < unat b * 256 ^ length bs + 256 ^ length bs"
    using Cons.IH by simp
  also have "\<dots> = (unat b + 1) * 256 ^ length bs" by simp
  also have "\<dots> \<le> 256 * 256 ^ length bs"
    using unat_byte_less [of b] by (intro mult_right_mono) simp_all
  finally show ?case by (simp add: bytesToNat_Cons)
qed

lemma byte_top_bit: "((b :: byte) AND 0x80 \<noteq> 0) \<longleftrightarrow> 128 \<le> unat b"
proof -
  have e: "(0x80 :: byte) = 2 ^ 7" by simp
  have "(b AND 2 ^ 7 = 0) \<longleftrightarrow> \<not> bit b 7"
    by (rule and_exp_eq_0_iff_not_bit)
  moreover have "bit b 7 \<longleftrightarrow> bit (unat b) 7"
    by (simp add: bit_unsigned_iff)
  moreover have "bit (unat b) 7 \<longleftrightarrow> 128 \<le> unat b"
  proof -
    have "unat b div 128 < 2" using unat_byte_less [of b] by simp
    then have "odd (unat b div 128) \<longleftrightarrow> unat b div 128 = 1"
      by (cases "unat b div 128 = 0") auto
    also have "\<dots> \<longleftrightarrow> 128 \<le> unat b" using unat_byte_less [of b] by auto
    finally show ?thesis by (simp add: bit_iff_odd)
  qed
  ultimately show ?thesis unfolding e by blast
qed

lemma sint_word_of_nat_cases:
  fixes n :: nat
  assumes "n < 2 ^ LENGTH('a)"
  shows "sint (word_of_nat n :: 'a::len word) =
     (if n < 2 ^ (LENGTH('a) - 1) then int n else int n - 2 ^ LENGTH('a))"
proof -
  define h :: int where "h = 2 ^ (LENGTH('a) - 1)"
  define m :: int where "m = 2 ^ LENGTH('a)"
  have mh: "m = 2 * h"
    unfolding m_def h_def by (metis One_nat_def Suc_pred len_gt_0 power_Suc)
  have hpos: "0 < h" unfolding h_def by simp
  have s: "sint (word_of_nat n :: 'a word) = (int n + h) mod m - h"
    unfolding h_def m_def using int_word_sint [of "int n", where 'a='a] by simp
  have nm: "int n < m" unfolding m_def using assms by (metis of_nat_less_numeral_power_cancel_iff)
  show ?thesis
  proof (cases "n < 2 ^ (LENGTH('a) - 1)")
    case True
    then have "int n < h" unfolding h_def by (metis of_nat_less_numeral_power_cancel_iff)
    then have "(int n + h) mod m = int n + h" using mh hpos by simp
    then show ?thesis using s True by simp
  next
    case False
    then have "h \<le> int n" unfolding h_def by (metis not_less numeral_power_le_of_nat_cancel_iff)
    then have "(int n + h) mod m = int n + h - m"
      using mh hpos nm by (simp add: mod_pos_geq)
    then show ?thesis using s False mh by (simp add: m_def)
  qed
qed


lemma signedWord_int256:
  assumes "i + 32 \<le> length d"
  shows "signedWord d i = int256_of_bytes (sliceBytes d i (i + 32))"
proof -
  define bs where "bs = sliceBytes d i (i + 32)"
  have len: "length bs = 32" using assms by (simp add: bs_def sliceBytes_def)
  then obtain b0 rest where bs: "bs = b0 # rest" by (cases bs) auto
  have rest: "length rest = 31" using len bs by simp
  have "hd bs = d ! i"
    using assms by (simp add: bs_def sliceBytes_def hd_drop_conv_nth)
  then have b0: "b0 = d ! i" using bs by simp
  define r where "r = bytesToNat rest"
  have rl: "r < 256 ^ 31" unfolding r_def using bytesToNat_less [of rest] rest by simp
  have n: "bytesToNat bs = unat b0 * 256 ^ 31 + r"
    unfolding bs r_def using rest by (simp add: bytesToNat_Cons)
  have "bytesToNat bs < 256 ^ 32" using bytesToNat_less [of bs] len by simp
  then have lt: "bytesToNat bs < 2 ^ LENGTH(256)" by simp
  have top: "bytesToNat bs < 2 ^ (LENGTH(256) - 1) \<longleftrightarrow> \<not> 128 \<le> unat b0"
  proof (cases "128 \<le> unat b0")
    case True
    then have "128 * 256 ^ 31 \<le> unat b0 * 256 ^ 31" by (intro mult_right_mono) simp_all
    then show ?thesis using True n by simp
  next
    case False
    then have "unat b0 + 1 \<le> 128" by simp
    then have "(unat b0 + 1) * 256 ^ 31 \<le> 128 * 256 ^ 31" by (intro mult_right_mono) simp_all
    moreover have "unat b0 * 256 ^ 31 + r < (unat b0 + 1) * 256 ^ 31" using rl by simp
    ultimately show ?thesis using False n by simp
  qed
  have "int256_of_bytes bs =
      (if \<not> 128 \<le> unat b0 then int (bytesToNat bs) else int (bytesToNat bs) - 2 ^ LENGTH(256))"
    unfolding int256_of_bytes_def sint_word_of_nat_cases [OF lt] top ..
  then show ?thesis
    unfolding signedWord_def bs_def [symmetric] byte_top_bit b0 [symmetric] SetBytes_def
    by simp
qed

subsection \<open>The sample pool and the sample V3 log\<close>

lemma replicate_unfold: "0 < n \<Longrightarrow> replicate n x = x # replicate (n - 1) x"
  by (cases n) simp_all

lemma usdcWord_address: "BytesToAddress (sliceBytes usdcWord 12 32) = USDC"
  by (simp add: usdcWord_def sliceBytes_def BytesToAddress_def bytesToNat_def USDC_def)

lemma wethWord_address: "BytesToAddress (sliceBytes wethWord 12 32) = WETH"
  by (simp add: wethWord_def sliceBytes_def BytesToAddress_def bytesToNat_def WETH_def)

lemma sampleWord_length: "length usdcWord = 32" "length wethWord = 32"
  by (simp_all add: usdcWord_def wethWord_def)

lemma v3Log_length: "length (Log_Data v3Log) = 160"
  by (simp add: v3Log_def)



lemma v3Log_amount0: "signedWord (Log_Data v3Log) 0 = - 2000"
  by (simp add: v3Log_def signedWord_def sliceBytes_def SetBytes_def bytesToNat_def replicate_unfold)

lemma v3Log_amount1: "signedWord (Log_Data v3Log) 32 = 1000000"
  by (simp add: v3Log_def signedWord_def sliceBytes_def SetBytes_def bytesToNat_def replicate_unfold)

lemma v3Log_tick: "signedWord (Log_Data v3Log) 128 = - 5"
  by (simp add: v3Log_def signedWord_def sliceBytes_def SetBytes_def bytesToNat_def replicate_unfold)

subsection \<open>Pool metadata and its cache\<close>

lemma cacheGrows_refl: "cacheGrows w w"
  by (simp add: cacheGrows_def)

lemma cacheGrows_trans: "cacheGrows w1 w2 \<Longrightarrow> cacheGrows w2 w3 \<Longrightarrow> cacheGrows w1 w3"
  unfolding cacheGrows_def by (blast intro: map_le_trans)

lemma cacheGrows_same:
  "v2PoolCache w' = v2PoolCache w \<Longrightarrow> v3PoolCache w' = v3PoolCache w \<Longrightarrow> cacheGrows w w'"
  by (simp add: cacheGrows_def)

lemma cacheGrows_reported: "cacheGrows w (w'\<lparr>reported := x\<rparr>) = cacheGrows w w'"
  by (simp add: cacheGrows_def)

lemma Client_CallContract_frame:
  "Client_CallContract e a d w = (r, w') \<Longrightarrow>
     v2PoolCache w' = v2PoolCache w \<and> v3PoolCache w' = v3PoolCache w \<and> reported w' = reported w"
  unfolding Client_CallContract_def by (rule retryLoop_frame)

lemma Client_BlockNumber_frame:
  "Client_BlockNumber e w = (r, w') \<Longrightarrow>
     v2PoolCache w' = v2PoolCache w \<and> v3PoolCache w' = v3PoolCache w \<and> reported w' = reported w"
  unfolding Client_BlockNumber_def by (rule retryLoop_frame)

lemma Client_GetLogs_frame:
  "Client_GetLogs e f t topic w = (r, w') \<Longrightarrow>
     v2PoolCache w' = v2PoolCache w \<and> v3PoolCache w' = v3PoolCache w \<and> reported w' = reported w"
  unfolding Client_GetLogs_def by (rule retryLoop_frame)

lemma Client_TransactionReceipt_frame:
  "Client_TransactionReceipt e h w = (r, w') \<Longrightarrow>
     v2PoolCache w' = v2PoolCache w \<and> v3PoolCache w' = v3PoolCache w \<and> reported w' = reported w"
  unfolding Client_TransactionReceipt_def by (rule retryLoop_frame)

lemma Client_GetTransaction_frame:
  "Client_GetTransaction e h w = (r, w') \<Longrightarrow>
     v2PoolCache w' = v2PoolCache w \<and> v3PoolCache w' = v3PoolCache w \<and> reported w' = reported w"
  unfolding Client_GetTransaction_def by (rule retryLoop_frame)

lemma callToken0_frame:
  "callToken0 e a w = (r, w') \<Longrightarrow>
     v2PoolCache w' = v2PoolCache w \<and> v3PoolCache w' = v3PoolCache w \<and> reported w' = reported w"
  unfolding callToken0_def
  by (auto split: prod.splits sum.splits if_splits dest: Client_CallContract_frame)

lemma callToken1_frame:
  "callToken1 e a w = (r, w') \<Longrightarrow>
     v2PoolCache w' = v2PoolCache w \<and> v3PoolCache w' = v3PoolCache w \<and> reported w' = reported w"
  unfolding callToken1_def
  by (auto split: prod.splits sum.splits if_splits dest: Client_CallContract_frame)

lemma callFee_frame:
  "callFee e a w = (r, w') \<Longrightarrow>
     v2PoolCache w' = v2PoolCache w \<and> v3PoolCache w' = v3PoolCache w \<and> reported w' = reported w"
  unfolding callFee_def
  by (auto split: prod.splits sum.splits if_splits dest: Client_CallContract_frame)

lemma v3_getPoolInfo_hit:
  "v3PoolCache w a = Some info \<Longrightarrow> v3_getPoolInfo e a w = (Inr info, w)"
  by (simp add: v3_getPoolInfo_def)

lemma v2_getPoolInfo_hit:
  "v2PoolCache w a = Some info \<Longrightarrow> v2_getPoolInfo e a w = (Inr info, w)"
  by (simp add: v2_getPoolInfo_def)

lemma v3_getPoolInfo_cases:
  assumes "v3_getPoolInfo e a w = (r, w')"
  shows "(\<exists>info. v3PoolCache w a = Some info \<and> r = Inr info \<and> w' = w) \<or>
         (v3PoolCache w a = None \<and> (\<exists>err. r = Inl err) \<and> v3PoolCache w' = v3PoolCache w \<and>
            v2PoolCache w' = v2PoolCache w \<and> reported w' = reported w) \<or>
         (v3PoolCache w a = None \<and>
            (\<exists>info. r = Inr info \<and> v3PoolCache w' = (v3PoolCache w)(a \<mapsto> info)) \<and>
            v2PoolCache w' = v2PoolCache w \<and> reported w' = reported w)"
proof (cases "v3PoolCache w a")
  case (Some info)
  then show ?thesis using assms by (simp add: v3_getPoolInfo_def)
next
  case None
  obtain r0 w1 where c0: "callToken0 e a w = (r0, w1)" by (cases "callToken0 e a w")
  note f0 = callToken0_frame [OF c0]
  show ?thesis
  proof (cases r0)
    case (Inl err)
    then show ?thesis using assms None c0 f0 by (auto simp: v3_getPoolInfo_def)
  next
    case (Inr token0)
    obtain r1 w2 where c1: "callToken1 e a w1 = (r1, w2)" by (cases "callToken1 e a w1")
    note f1 = callToken1_frame [OF c1]
    show ?thesis
    proof (cases r1)
      case (Inl err)
      then show ?thesis using assms None c0 f0 Inr c1 f1 by (auto simp: v3_getPoolInfo_def)
    next
      case i1: (Inr token1)
      obtain r2 w3 where c2: "callFee e a w2 = (r2, w3)" by (cases "callFee e a w2")
      note f2 = callFee_frame [OF c2]
      show ?thesis
      proof (cases r2)
        case (Inl err)
        then show ?thesis using assms None c0 f0 Inr c1 f1 i1 c2 f2 by (auto simp: v3_getPoolInfo_def)
      next
        case i2: (Inr fee)
        then show ?thesis using assms None c0 f0 Inr c1 f1 i1 c2 f2
          by (auto simp: v3_getPoolInfo_def Let_def)
      qed
    qed
  qed
qed

lemma v2_getPoolInfo_cases:
  assumes "v2_getPoolInfo e a w = (r, w')"
  shows "(\<exists>info. v2PoolCache w a = Some info \<and> r = Inr info \<and> w' = w) \<or>
         (v2PoolCache w a = None \<and> (\<exists>err. r = Inl err) \<and> v2PoolCache w' = v2PoolCache w \<and>
            v3PoolCache w' = v3PoolCache w \<and> reported w' = reported w) \<or>
         (v2PoolCache w a = None \<and>
            (\<exists>info. r = Inr info \<and> v2PoolCache w' = (v2PoolCache w)(a \<mapsto> info)) \<and>
            v3PoolCache w' = v3PoolCache w \<and> reported w' = reported w)"
proof (cases "v2PoolCache w a")
  case (Some info)
  then show ?thesis using assms by (simp add: v2_getPoolInfo_def)
next
  case None
  obtain r0 w1 where c0: "callToken0 e a w = (r0, w1)" by (cases "callToken0 e a w")
  note f0 = callToken0_frame [OF c0]
  show ?thesis
  proof (cases r0)
    case (Inl err)
    then show ?thesis using assms None c0 f0 by (auto simp: v2_getPoolInfo_def)
  next
    case (Inr token0)
    obtain r1 w2 where c1: "callToken1 e a w1 = (r1, w2)" by (cases "callToken1 e a w1")
    note f1 = callToken1_frame [OF c1]
    show ?thesis
    proof (cases r1)
      case (Inl err)
      then show ?thesis using assms None c0 f0 Inr c1 f1 by (auto simp: v2_getPoolInfo_def)
    next
      case i1: (Inr token1)
      then show ?thesis using assms None c0 f0 Inr c1 f1
        by (auto simp: v2_getPoolInfo_def Let_def)
    qed
  qed
qed

lemma v3_getPoolInfo_grows: "v3_getPoolInfo e a w = (r, w') \<Longrightarrow> cacheGrows w w'"
  by (drule v3_getPoolInfo_cases) (auto simp: cacheGrows_def map_le_def)

lemma v2_getPoolInfo_grows: "v2_getPoolInfo e a w = (r, w') \<Longrightarrow> cacheGrows w w'"
  by (drule v2_getPoolInfo_cases) (auto simp: cacheGrows_def map_le_def)

lemma v3_getPoolInfo_failure: "v3_getPoolInfo e a w = (Inl err, w') \<Longrightarrow> v3PoolCache w' = v3PoolCache w"
  by (drule v3_getPoolInfo_cases) auto

lemma v2_getPoolInfo_failure: "v2_getPoolInfo e a w = (Inl err, w') \<Longrightarrow> v2PoolCache w' = v2PoolCache w"
  by (drule v2_getPoolInfo_cases) auto

lemma v3_getPoolInfo_success:
  "v3_getPoolInfo e a w = (Inr info, w') \<Longrightarrow>
     v3PoolCache w' a = Some info \<and> v3_getPoolInfo e a w' = (Inr info, w')"
  by (drule v3_getPoolInfo_cases) (auto simp: v3_getPoolInfo_hit)

lemma v2_getPoolInfo_success:
  "v2_getPoolInfo e a w = (Inr info, w') \<Longrightarrow>
     v2PoolCache w' a = Some info \<and> v2_getPoolInfo e a w' = (Inr info, w')"
  by (drule v2_getPoolInfo_cases) (auto simp: v2_getPoolInfo_hit)

subsection \<open>Decoding a V3 swap log\<close>

lemma v3_DecodeSwapLog_invalid:
  assumes "length (Log_Topics lg) < 3 \<or> Log_Topics lg ! 0 \<noteq> V3_SwapEventSignature \<or>
           length (Log_Data lg) < 160"
  shows "\<exists>err. v3_DecodeSwapLog e lg w = (Inl err, w)"
  using assms by (auto simp: v3_DecodeSwapLog_def)

lemma v2_DecodeSwapLog_invalid:
  assumes "length (Log_Topics lg) < 3 \<or> Log_Topics lg ! 0 \<noteq> V2_SwapEventSignature \<or>
           length (Log_Data lg) < 128"
  shows "\<exists>err. v2_DecodeSwapLog e lg w = (Inl err, w)"
  using assms by (auto simp: v2_DecodeSwapLog_def)

lemma v3_DecodeSwapLog_valid:
  assumes "\<not> length (Log_Topics lg) < 3" and "Log_Topics lg ! 0 = V3_SwapEventSignature"
      and "\<not> length (Log_Data lg) < 160"
  shows "v3_DecodeSwapLog e lg w =
     (case v3_getPoolInfo e (Log_Address lg) w of
        (Inl err, w') \<Rightarrow> (Inl (Errorf ''failed to get pool info'' (Some err)), w')
      | (Inr poolInfo, w') \<Rightarrow>
          (Inr \<lparr>TxHash = Log_TxHash lg,
                BlockNumber = Log_BlockNumber lg,
                LogIndex = Log_Index lg,
                Pool = Log_Address lg,
                Protocol = ''uniswap_v3'',
                Sender = HexToAddress_of_topic (Log_Topics lg ! 1),
                Recipient = HexToAddress_of_topic (Log_Topics lg ! 2),
                Token0 = V3_Token0 poolInfo,
                Token1 = V3_Token1 poolInfo,
                Amount0In = (if signedWord (Log_Data lg) 0 > 0 then signedWord (Log_Data lg) 0 else 0),
                Amount1In = (if signedWord (Log_Data lg) 32 > 0 then signedWord (Log_Data lg) 32 else 0),
                Amount0Out = (if signedWord (Log_Data lg) 0 > 0 then 0 else - signedWord (Log_Data lg) 0),
                Amount1Out = (if signedWord (Log_Data lg) 32 > 0 then 0 else - signedWord (Log_Data lg) 32),
                SqrtPriceX96 = Some (SetBytes (sliceBytes (Log_Data lg) 64 96)),
                Liquidity = Some (SetBytes (sliceBytes (Log_Data lg) 96 128)),
                Tick = Some (signedWord (Log_Data lg) 128)\<rparr>, w'))"
  using assms by (simp add: v3_DecodeSwapLog_def Let_def)

lemma v3_DecodeSwapLog_Inr:
  assumes "v3_DecodeSwapLog e lg w = (Inr swap, w')"
  shows "\<not> length (Log_Data lg) < 160 \<and>
         Amount0In swap = (if signedWord (Log_Data lg) 0 > 0 then signedWord (Log_Data lg) 0 else 0) \<and>
         Amount1In swap = (if signedWord (Log_Data lg) 32 > 0 then signedWord (Log_Data lg) 32 else 0) \<and>
         Amount0Out swap = (if signedWord (Log_Data lg) 0 > 0 then 0 else - signedWord (Log_Data lg) 0) \<and>
         Amount1Out swap = (if signedWord (Log_Data lg) 32 > 0 then 0 else - signedWord (Log_Data lg) 32) \<and>
         Tick swap = Some (signedWord (Log_Data lg) 128)"
proof -
  have v: "\<not> length (Log_Topics lg) < 3" "Log_Topics lg ! 0 = V3_SwapEventSignature"
      "\<not> length (Log_Data lg) < 160"
    using assms v3_DecodeSwapLog_invalid [of lg e w] by auto
  obtain r w1 where g: "v3_getPoolInfo e (Log_Address lg) w = (r, w1)"
    by (cases "v3_getPoolInfo e (Log_Address lg) w")
  show ?thesis
  proof (cases r)
    case (Inl err)
    then show ?thesis using assms g by (simp add: v3_DecodeSwapLog_valid [OF v])
  next
    case (Inr poolInfo)
    then have "swap = \<lparr>TxHash = Log_TxHash lg,
                BlockNumber = Log_BlockNumber lg,
                LogIndex = Log_Index lg,
                Pool = Log_Address lg,
                Protocol = ''uniswap_v3'',
                Sender = HexToAddress_of_topic (Log_Topics lg ! 1),
                Recipient = HexToAddress_of_topic (Log_Topics lg ! 2),
                Token0 = V3_Token0 poolInfo,
                Token1 = V3_Token1 poolInfo,
                Amount0In = (if signedWord (Log_Data lg) 0 > 0 then signedWord (Log_Data lg) 0 else 0),
                Amount1In = (if signedWord (Log_Data lg) 32 > 0 then signedWord (Log_Data lg) 32 else 0),
                Amount0Out = (if signedWord (Log_Data lg) 0 > 0 then 0 else - signedWord (Log_Data lg) 0),
                Amount1Out = (if signedWord (Log_Data lg) 32 > 0 then 0 else - signedWord (Log_Data lg) 32),
                SqrtPriceX96 = Some (SetBytes (sliceBytes (Log_Data lg) 64 96)),
                Liquidity = Some (SetBytes (sliceBytes (Log_Data lg) 96 128)),
                Tick = Some (signedWord (Log_Data lg) 128)\<rparr>"
      using assms g by (simp add: v3_DecodeSwapLog_valid [OF v])
    then show ?thesis using v(3) by simp
  qed
qed

text \<open>
  C3. For every V3 swap log that decodes, the two's-complement value of the first data
  word decides the split of token0: a negative value yields \<open>Amount0Out\<close> equal to its
  negation and \<open>Amount0In = 0\<close>, a positive value yields \<open>Amount0In\<close> equal to it and
  \<open>Amount0Out = 0\<close>; the second word does the same for token1; the tick is the
  two's-complement value of the fifth word; and none of the four amounts is negative.
\<close>

theorem C3_signed_amounts_split:
  assumes "v3_DecodeSwapLog e lg w = (Inr swap, w')"
  shows "(int256_of_bytes (sliceBytes (Log_Data lg) 0 32) < 0 \<longrightarrow>
            Amount0Out swap = - int256_of_bytes (sliceBytes (Log_Data lg) 0 32) \<and> Amount0In swap = 0) \<and>
         (0 < int256_of_bytes (sliceBytes (Log_Data lg) 0 32) \<longrightarrow>
            Amount0In swap = int256_of_bytes (sliceBytes (Log_Data lg) 0 32) \<and> Amount0Out swap = 0) \<and>
         (int256_of_bytes (sliceBytes (Log_Data lg) 32 64) < 0 \<longrightarrow>
            Amount1Out swap = - int256_of_bytes (sliceBytes (Log_Data lg) 32 64) \<and> Amount1In swap = 0) \<and>
         (0 < int256_of_bytes (sliceBytes (Log_Data lg) 32 64) \<longrightarrow>
            Amount1In swap = int256_of_bytes (sliceBytes (Log_Data lg) 32 64) \<and> Amount1Out swap = 0) \<and>
         Tick swap = Some (int256_of_bytes (sliceBytes (Log_Data lg) 128 160)) \<and>
         0 \<le> Amount0In swap \<and> 0 \<le> Amount1In swap \<and> 0 \<le> Amount0Out swap \<and> 0 \<le> Amount1Out swap"
proof -
  note d = v3_DecodeSwapLog_Inr [OF assms]
  from d have len: "0 + 32 \<le> length (Log_Data lg)" "32 + 32 \<le> length (Log_Data lg)"
    "128 + 32 \<le> length (Log_Data lg)" by simp_all
  have s0: "signedWord (Log_Data lg) 0 = int256_of_bytes (sliceBytes (Log_Data lg) 0 32)"
    using signedWord_int256 [OF len(1)] by simp
  have s1: "signedWord (Log_Data lg) 32 = int256_of_bytes (sliceBytes (Log_Data lg) 32 64)"
    using signedWord_int256 [OF len(2)] by simp
  have s2: "signedWord (Log_Data lg) 128 = int256_of_bytes (sliceBytes (Log_Data lg) 128 160)"
    using signedWord_int256 [OF len(3)] by simp
  show ?thesis using d unfolding s0 s1 s2 by simp
qed

lemma poolEnv_token0:
  "callToken0 poolEnv 0x31 w = (Inr USDC, w\<lparr>trace := trace w @ [ReqCallContract 0x31 [0x0d, 0xfe, 0x16, 0x81]]\<rparr>)"
  by (simp add: callToken0_def Client_CallContract_def poolEnv_def poolNode_def quietNode_def
      defaultConfig_def retryLoop_unfold usdcWord_address sampleWord_length)

lemma poolEnv_token1:
  "callToken1 poolEnv 0x31 w = (Inr WETH, w\<lparr>trace := trace w @ [ReqCallContract 0x31 [0xd2, 0x12, 0x20, 0xa7]]\<rparr>)"
  by (simp add: callToken1_def Client_CallContract_def poolEnv_def poolNode_def quietNode_def
      defaultConfig_def retryLoop_unfold wethWord_address sampleWord_length)

lemma poolEnv_fee:
  "callFee poolEnv 0x31 w = (Inr 3000, w\<lparr>trace := trace w @ [ReqCallContract 0x31 [0xdd, 0xca, 0x3f, 0x43]]\<rparr>)"
  by (simp add: callFee_def Client_CallContract_def poolEnv_def poolNode_def quietNode_def
      defaultConfig_def retryLoop_unfold bytesToNat_def replicate_unfold)

lemma poolEnv_getPoolInfo: "v3_getPoolInfo poolEnv 0x31 emptyWorld = (Inr v3PoolInfo, v3World)"
  by (simp add: v3_getPoolInfo_def poolEnv_token0 poolEnv_token1 poolEnv_fee Let_def
      emptyWorld_def v3PoolInfo_def v3World_def)

lemma v3Log_words:
  "SetBytes (sliceBytes (Log_Data v3Log) 64 96) = 1"
  "SetBytes (sliceBytes (Log_Data v3Log) 96 128) = 5"
  by (simp_all add: v3Log_def sliceBytes_def SetBytes_def bytesToNat_def replicate_unfold)

lemma v3Log_topics:
  "\<not> length (Log_Topics v3Log) < 3" "Log_Topics v3Log ! 0 = V3_SwapEventSignature"
  by (simp_all add: v3Log_def)

lemma v3Log_sender: "HexToAddress_of_topic (Log_Topics v3Log ! Suc 0) = 9"
  by (simp add: v3Log_def HexToAddress_of_topic_def)

lemma v3Log_recipient: "HexToAddress_of_topic (Log_Topics v3Log ! 2) = 9"
  by (simp add: v3Log_def HexToAddress_of_topic_def)

lemma v3Log_fields:
  "Log_Address v3Log = 0x31" "Log_TxHash v3Log = 7" "Log_BlockNumber v3Log = 1" "Log_Index v3Log = 0"
  by (simp_all add: v3Log_def)

lemma poolEnv_decode: "v3_DecodeSwapLog poolEnv v3Log emptyWorld = (Inr v3Swap, v3World)"
proof -
  have l: "\<not> length (Log_Data v3Log) < 160" by (simp add: v3Log_length)
  show ?thesis
    unfolding v3_DecodeSwapLog_valid [OF v3Log_topics(1,2) l]
    by (simp add: v3Log_sender v3Log_recipient v3Log_fields poolEnv_getPoolInfo v3Log_amount0 v3Log_amount1 v3Log_tick
        v3Log_words v3Swap_def v3PoolInfo_def)
qed

theorem C3_signed_amounts_split_witness:
  "v3_DecodeSwapLog poolEnv v3Log emptyWorld = (Inr v3Swap, v3World) \<and>
   int256_of_bytes (sliceBytes (Log_Data v3Log) 0 32) = - 2000 \<and>
   int256_of_bytes (sliceBytes (Log_Data v3Log) 32 64) = 1000000 \<and>
   Amount0Out v3Swap = 2000 \<and> Amount0In v3Swap = 0 \<and>
   Amount1In v3Swap = 1000000 \<and> Amount1Out v3Swap = 0 \<and>
   Tick v3Swap = Some (int256_of_bytes (sliceBytes (Log_Data v3Log) 128 160))"
proof -
  have len: "0 + 32 \<le> length (Log_Data v3Log)" "32 + 32 \<le> length (Log_Data v3Log)"
    by (simp_all add: v3Log_length)
  have amt0: "int256_of_bytes (sliceBytes (Log_Data v3Log) 0 32) = - 2000"
    using signedWord_int256 [OF len(1)] v3Log_amount0 by simp
  have amt1: "int256_of_bytes (sliceBytes (Log_Data v3Log) 32 64) = 1000000"
    using signedWord_int256 [OF len(2)] v3Log_amount1 by simp
  from C3_signed_amounts_split [OF poolEnv_decode] amt0 amt1
  have "Amount0Out v3Swap = 2000 \<and> Amount0In v3Swap = 0 \<and>
   Amount1In v3Swap = 1000000 \<and> Amount1Out v3Swap = 0 \<and>
   Tick v3Swap = Some (int256_of_bytes (sliceBytes (Log_Data v3Log) 128 160))"
    by simp
  with poolEnv_decode amt0 amt1 show ?thesis by blast
qed

subsection \<open>Malformed logs\<close>

lemma signatures_differ: "V2_SwapEventSignature \<noteq> V3_SwapEventSignature"
  by (simp add: V2_SwapEventSignature_def V3_SwapEventSignature_def)

lemma DecodeSwapLog_malformed:
  assumes "length (Log_Topics lg) < 3 \<or>
           (Log_Topics lg ! 0 = V2_SwapEventSignature \<and> length (Log_Data lg) < 128) \<or>
           (Log_Topics lg ! 0 = V3_SwapEventSignature \<and> length (Log_Data lg) < 160)"
  shows "(\<exists>err. DecodeSwapLog e lg w = (Inl err, w)) \<or> DecodeSwapLog e lg w = (Inr None, w)"
proof -
  have v2: "Log_Topics lg ! 0 = V2_SwapEventSignature \<Longrightarrow> \<exists>err. v2_DecodeSwapLog e lg w = (Inl err, w)"
    using assms signatures_differ by (intro v2_DecodeSwapLog_invalid) auto
  have v3: "Log_Topics lg ! 0 = V3_SwapEventSignature \<Longrightarrow> \<exists>err. v3_DecodeSwapLog e lg w = (Inl err, w)"
    using assms signatures_differ by (intro v3_DecodeSwapLog_invalid) auto
  show ?thesis
    using v2 v3 by (auto simp: DecodeSwapLog_def)
qed

lemma decodeLoop_skip:
  assumes "(\<exists>err. DecodeSwapLog e lg w = (Inl err, w)) \<or> DecodeSwapLog e lg w = (Inr None, w)"
  shows "decodeLoop e (lg # logs) swaps w = decodeLoop e logs swaps w"
  using assms by auto

lemma decodeLoop_append:
  "decodeLoop e (xs @ ys) swaps w =
     (case decodeLoop e xs swaps w of (swaps', w') \<Rightarrow> decodeLoop e ys swaps' w')"
proof (induction xs arbitrary: swaps w)
  case Nil
  then show ?case by simp
next
  case (Cons x xs)
  obtain r w1 where d: "DecodeSwapLog e x w = (r, w1)" by (cases "DecodeSwapLog e x w")
  show ?case
  proof (cases r)
    case (Inl err)
    then show ?thesis using d Cons.IH by simp
  next
    case (Inr so)
    then show ?thesis using d Cons.IH by (cases so) simp_all
  qed
qed

lemma decodeLoop_malformed_sibling:
  assumes "length (Log_Topics lg) < 3 \<or>
           (Log_Topics lg ! 0 = V2_SwapEventSignature \<and> length (Log_Data lg) < 128) \<or>
           (Log_Topics lg ! 0 = V3_SwapEventSignature \<and> length (Log_Data lg) < 160)"
  shows "decodeLoop e (before @ lg # after) swaps w = decodeLoop e (before @ after) swaps w"
proof -
  obtain s1 w1 where b: "decodeLoop e before swaps w = (s1, w1)" by (cases "decodeLoop e before swaps w")
  have "decodeLoop e (lg # after) s1 w1 = decodeLoop e after s1 w1"
    using DecodeSwapLog_malformed [OF assms, of e w1] by (rule decodeLoop_skip)
  then show ?thesis by (simp add: decodeLoop_append b)
qed

lemma DecodeSwapsForTransaction_no_error:
  "\<exists>swaps w'. DecodeSwapsForTransaction e logs w = (Inr swaps, w')"
  by (simp add: DecodeSwapsForTransaction_def split: prod.splits)

text \<open>
  C8. A log with fewer than 3 topics or a payload shorter than 128 bytes fails in the V2
  decoder, one with fewer than 3 topics or a payload shorter than 160 bytes fails in the
  V3 decoder, each with an error, no swap and an unchanged state. In
  \<open>DecodeSwapsForTransaction\<close> such a log of either protocol is skipped: the result is
  the one for the list without it, and the function never returns an error.
\<close>

theorem C8_malformed_log_fails_alone:
  "(length (Log_Topics lg) < 3 \<or> length (Log_Data lg) < 128 \<longrightarrow>
      (\<exists>err. v2_DecodeSwapLog e lg w = (Inl err, w))) \<and>
   (length (Log_Topics lg) < 3 \<or> length (Log_Data lg) < 160 \<longrightarrow>
      (\<exists>err. v3_DecodeSwapLog e lg w = (Inl err, w))) \<and>
   (length (Log_Topics lg) < 3 \<or>
    (Log_Topics lg ! 0 = V2_SwapEventSignature \<and> length (Log_Data lg) < 128) \<or>
    (Log_Topics lg ! 0 = V3_SwapEventSignature \<and> length (Log_Data lg) < 160) \<longrightarrow>
      DecodeSwapsForTransaction e (before @ lg # after) w =
      DecodeSwapsForTransaction e (before @ after) w) \<and>
   (\<exists>swaps w'. DecodeSwapsForTransaction e (before @ lg # after) w = (Inr swaps, w'))"
proof (intro conjI impI)
  assume "length (Log_Topics lg) < 3 \<or> length (Log_Data lg) < 128"
  then show "\<exists>err. v2_DecodeSwapLog e lg w = (Inl err, w)"
    by (intro v2_DecodeSwapLog_invalid) auto
next
  assume "length (Log_Topics lg) < 3 \<or> length (Log_Data lg) < 160"
  then show "\<exists>err. v3_DecodeSwapLog e lg w = (Inl err, w)"
    by (intro v3_DecodeSwapLog_invalid) auto
next
  assume "length (Log_Topics lg) < 3 \<or>
    (Log_Topics lg ! 0 = V2_SwapEventSignature \<and> length (Log_Data lg) < 128) \<or>
    (Log_Topics lg ! 0 = V3_SwapEventSignature \<and> length (Log_Data lg) < 160)"
  then have "decodeLoop e (before @ lg # after) [] w = decodeLoop e (before @ after) [] w"
    by (rule decodeLoop_malformed_sibling)
  then show "DecodeSwapsForTransaction e (before @ lg # after) w =
      DecodeSwapsForTransaction e (before @ after) w"
    by (simp add: DecodeSwapsForTransaction_def)
next
  show "\<exists>swaps w'. DecodeSwapsForTransaction e (before @ lg # after) w = (Inr swaps, w')"
    by (rule DecodeSwapsForTransaction_no_error)
qed

lemma poolEnv_unified_decode: "DecodeSwapLog poolEnv v3Log emptyWorld = (Inr (Some v3Swap), v3World)"
proof -
  have "Log_Topics v3Log \<noteq> []" using v3Log_topics(1) by auto
  moreover have "EnableUniswapV3 (cfg poolEnv)" by (simp add: poolEnv_def defaultConfig_def)
  ultimately show ?thesis
    using signatures_differ by (simp add: DecodeSwapLog_def v3Log_topics poolEnv_decode)
qed

lemma poolEnv_decode_transaction:
  "DecodeSwapsForTransaction poolEnv [v3Log] emptyWorld = (Inr [v3Swap], v3World)"
  by (simp add: DecodeSwapsForTransaction_def poolEnv_unified_decode)

theorem C8_malformed_log_fails_alone_witness:
  "length (Log_Data badV2Log) < 128 \<and> Log_Topics badV2Log ! 0 = V2_SwapEventSignature \<and>
   v2_DecodeSwapLog poolEnv badV2Log emptyWorld =
     (Inl (Errorf ''invalid swap log data length: expected 128 bytes'' None), emptyWorld) \<and>
   DecodeSwapsForTransaction poolEnv ([] @ badV2Log # [v3Log]) emptyWorld = (Inr [v3Swap], v3World)"
proof -
  have l: "length (Log_Data badV2Log) < 128" by (simp add: badV2Log_def)
  have t: "Log_Topics badV2Log ! 0 = V2_SwapEventSignature" by (simp add: badV2Log_def)
  have n: "\<not> length (Log_Topics badV2Log) < 3" by (simp add: badV2Log_def)
  note k = C8_malformed_log_fails_alone [of badV2Log poolEnv emptyWorld "[]" "[v3Log]"]
  from k l obtain err where e: "v2_DecodeSwapLog poolEnv badV2Log emptyWorld = (Inl err, emptyWorld)"
    by blast
  have "v2_DecodeSwapLog poolEnv badV2Log emptyWorld =
     (Inl (Errorf ''invalid swap log data length: expected 128 bytes'' None), emptyWorld)"
    using l t n by (simp add: v2_DecodeSwapLog_def)
  moreover from k l t have "DecodeSwapsForTransaction poolEnv ([] @ badV2Log # [v3Log]) emptyWorld =
      DecodeSwapsForTransaction poolEnv ([] @ [v3Log]) emptyWorld" by blast
  then have "DecodeSwapsForTransaction poolEnv ([] @ badV2Log # [v3Log]) emptyWorld = (Inr [v3Swap], v3World)"
    by (simp add: poolEnv_decode_transaction)
  ultimately show ?thesis using l t by blast
qed

subsection \<open>The caches over the pipeline\<close>

lemma v3_DecodeSwapLog_grows:
  assumes "v3_DecodeSwapLog e lg w = (r, w')"
  shows "cacheGrows w w'"
proof (cases "length (Log_Topics lg) < 3 \<or> Log_Topics lg ! 0 \<noteq> V3_SwapEventSignature \<or>
           length (Log_Data lg) < 160")
  case True
  from v3_DecodeSwapLog_invalid [OF True, of e w] assms have "w' = w" by auto
  then show ?thesis by (simp add: cacheGrows_refl)
next
  case False
  obtain r1 w1 where g: "v3_getPoolInfo e (Log_Address lg) w = (r1, w1)"
    by (cases "v3_getPoolInfo e (Log_Address lg) w")
  from False assms g have "w' = w1"
    by (cases r1) (simp_all add: v3_DecodeSwapLog_valid)
  then show ?thesis using v3_getPoolInfo_grows [OF g] by simp
qed

lemma v2_DecodeSwapLog_grows:
  assumes "v2_DecodeSwapLog e lg w = (r, w')"
  shows "cacheGrows w w'"
proof (cases "length (Log_Topics lg) < 3 \<or> Log_Topics lg ! 0 \<noteq> V2_SwapEventSignature \<or>
           length (Log_Data lg) < 128")
  case True
  from v2_DecodeSwapLog_invalid [OF True, of e w] assms have "w' = w" by auto
  then show ?thesis by (simp add: cacheGrows_refl)
next
  case False
  obtain r1 w1 where g: "v2_getPoolInfo e (Log_Address lg) w = (r1, w1)"
    by (cases "v2_getPoolInfo e (Log_Address lg) w")
  from False assms g have "w' = w1"
    by (cases r1) (simp_all add: v2_DecodeSwapLog_def)
  then show ?thesis using v2_getPoolInfo_grows [OF g] by simp
qed

lemma DecodeSwapLog_grows:
  assumes "DecodeSwapLog e lg w = (r, w')"
  shows "cacheGrows w w'"
proof -
  obtain r2 w2 where d2: "v2_DecodeSwapLog e lg w = (r2, w2)" by (cases "v2_DecodeSwapLog e lg w")
  obtain r3 w3 where d3: "v3_DecodeSwapLog e lg w = (r3, w3)" by (cases "v3_DecodeSwapLog e lg w")
  have "w' = w \<or> w' = w2 \<or> w' = w3"
    using assms d2 d3 by (auto simp: DecodeSwapLog_def split: if_splits sum.splits)
  then show ?thesis
    using v2_DecodeSwapLog_grows [OF d2] v3_DecodeSwapLog_grows [OF d3] cacheGrows_refl [of w] by auto
qed

lemma decodeLoop_grows:
  "decodeLoop e logs swaps w = (swaps', w') \<Longrightarrow> cacheGrows w w'"
proof (induction logs arbitrary: swaps w)
  case Nil
  then show ?case by (simp add: cacheGrows_refl)
next
  case (Cons lg logs)
  obtain r w1 where d: "DecodeSwapLog e lg w = (r, w1)" by (cases "DecodeSwapLog e lg w")
  from Cons.prems d obtain s1 where "decodeLoop e logs s1 w1 = (swaps', w')"
    by (cases r) (auto split: option.splits)
  then have "cacheGrows w1 w'" by (rule Cons.IH)
  with DecodeSwapLog_grows [OF d] show ?case by (rule cacheGrows_trans)
qed

lemma DecodeSwapsForTransaction_grows:
  "DecodeSwapsForTransaction e logs w = (r, w') \<Longrightarrow> cacheGrows w w'"
  by (auto simp: DecodeSwapsForTransaction_def split: prod.splits dest: decodeLoop_grows)

lemma addGasInfo_grows:
  assumes "addGasInfo e txHash arb w = (arb', w')"
  shows "cacheGrows w w' \<and> reported w' = reported w"
proof -
  obtain r1 w1 where c1: "Client_TransactionReceipt e txHash w = (r1, w1)"
    by (cases "Client_TransactionReceipt e txHash w")
  obtain r2 w2 where c2: "Client_GetTransaction e txHash w1 = (r2, w2)"
    by (cases "Client_GetTransaction e txHash w1")
  have "w' = w1 \<or> w' = w2"
    using assms c1 c2 by (auto simp: addGasInfo_def Let_def split: sum.splits)
  then show ?thesis
    using Client_TransactionReceipt_frame [OF c1] Client_GetTransaction_frame [OF c2]
    by (auto simp: cacheGrows_def)
qed

lemma addGasInfoAll_grows:
  "addGasInfoAll e txHash arbs w = (arbs', w') \<Longrightarrow> cacheGrows w w' \<and> reported w' = reported w"
proof (induction arbs arbitrary: arbs' w w')
  case Nil
  then show ?case by (simp add: cacheGrows_refl)
next
  case (Cons a arbs)
  obtain a1 w1 where g: "addGasInfo e txHash a w = (a1, w1)" by (cases "addGasInfo e txHash a w")
  obtain as2 w2 where r: "addGasInfoAll e txHash arbs w1 = (as2, w2)"
    by (cases "addGasInfoAll e txHash arbs w1")
  from Cons.prems g r have "w' = w2" by simp
  then show ?case using addGasInfo_grows [OF g] Cons.IH [OF r] by (auto intro: cacheGrows_trans)
qed

lemma DetectArbitrage_grows:
  assumes "DetectArbitrage e txHash swaps w = (r, w')"
  shows "cacheGrows w w' \<and> reported w' = reported w"
proof (cases "length swaps < 2")
  case True
  then show ?thesis using assms by (auto simp: DetectArbitrage_def cacheGrows_refl)
next
  case False
  from DetectArbitrage_shape [OF False, of e txHash w] assms
  obtain cyc cross w1 where
    c: "case detectCyclicArbitrage (sort_key LogIndex swaps) of
              None \<Rightarrow> cyc = [] \<and> w1 = w
            | Some arb \<Rightarrow> (\<exists>arb'. cyc = [arb'] \<and> addGasInfo e txHash arb w = (arb', w1))" and
    x: "addGasInfoAll e txHash
             (detectCrossDEXArbitrage (AddressHex e) (sort_key LogIndex swaps)) w1 = (cross, w')"
    by auto
  have "cacheGrows w w1 \<and> reported w1 = reported w"
    using c by (auto split: option.splits simp: cacheGrows_refl dest: addGasInfo_grows)
  then show ?thesis using addGasInfoAll_grows [OF x] by (auto intro: cacheGrows_trans)
qed

lemma processTransactions_grows:
  "processTransactions e groups w = w' \<Longrightarrow> cacheGrows w w'"
proof (induction groups arbitrary: w)
  case Nil
  then show ?case by (simp add: cacheGrows_refl)
next
  case (Cons g groups)
  obtain txHash txSwapLogs where ge: "g = (txHash, txSwapLogs)" by (cases g)
  obtain r1 w1 where d: "DecodeSwapsForTransaction e txSwapLogs w = (r1, w1)"
    by (cases "DecodeSwapsForTransaction e txSwapLogs w")
  from DecodeSwapsForTransaction_no_error [of e txSwapLogs w] d
  obtain swaps where r1: "r1 = Inr swaps" by auto
  obtain r2 w2 where a: "DetectArbitrage e txHash swaps w1 = (r2, w2)"
    by (cases "DetectArbitrage e txHash swaps w1")
  have g1: "cacheGrows w w1" using d by (rule DecodeSwapsForTransaction_grows)
  have g2: "cacheGrows w1 w2" using DetectArbitrage_grows [OF a] by simp
  define w3 where "w3 = (case r2 of Inl err \<Rightarrow> w2 | Inr arbs \<Rightarrow> w2\<lparr>reported := reported w2 @ arbs\<rparr>)"
  have g3: "cacheGrows w2 w3"
    unfolding w3_def by (cases r2) (simp_all add: cacheGrows_refl cacheGrows_reported)
  have p: "processTransactions e groups w3 = w'"
    using Cons.prems ge d r1 a unfolding w3_def by (cases r2) simp_all
  from Cons.IH [OF p] g1 g2 g3 show ?case by (blast intro: cacheGrows_trans)
qed

lemma GetAllSwapLogs_grows:
  assumes "GetAllSwapLogs e fromBlock toBlock w = (r, w')"
  shows "cacheGrows w w' \<and> reported w' = reported w"
proof -
  obtain r1 w1 where c1: "v2_GetSwapLogs e fromBlock toBlock w = (r1, w1)"
    by (cases "v2_GetSwapLogs e fromBlock toBlock w")
  have f1: "v2PoolCache w1 = v2PoolCache w \<and> v3PoolCache w1 = v3PoolCache w \<and> reported w1 = reported w"
    using c1 unfolding v2_GetSwapLogs_def by (rule Client_GetLogs_frame)
  define wa where "wa = (if EnableUniswapV2 (cfg e) then w1 else w)"
  have fa: "v2PoolCache wa = v2PoolCache w \<and> v3PoolCache wa = v3PoolCache w \<and> reported wa = reported w"
    using f1 by (simp add: wa_def)
  obtain r2 w2 where c2: "v3_GetSwapLogs e fromBlock toBlock wa = (r2, w2)"
    by (cases "v3_GetSwapLogs e fromBlock toBlock wa")
  have f2: "v2PoolCache w2 = v2PoolCache wa \<and> v3PoolCache w2 = v3PoolCache wa \<and> reported w2 = reported wa"
    using c2 unfolding v3_GetSwapLogs_def by (rule Client_GetLogs_frame)
  have "w' = wa \<or> w' = w2"
    using assms c1 c2 unfolding wa_def
    by (auto simp: GetAllSwapLogs_def Let_def split: if_splits sum.splits prod.splits)
  then show ?thesis using fa f2 by (auto simp: cacheGrows_def)
qed

lemma processBlockRange_grows:
  assumes "processBlockRange e fromBlock toBlock w = Some (r, w')"
  shows "cacheGrows w w'"
proof -
  obtain logs w1 where g: "GetAllSwapLogs e fromBlock toBlock w = (Inr logs, w1)"
    using GetAllSwapLogs_no_error [of e fromBlock toBlock w] by blast
  have "w' = w1 \<or> w' = processTransactions e (GroupSwapsByTransaction logs) w1"
    using assms g
    by (auto simp: processBlockRange_def Let_def split: if_splits option.splits)
  then show ?thesis
    using GetAllSwapLogs_grows [OF g] processTransactions_grows [of e "GroupSwapsByTransaction logs" w1 w']
    by (auto intro: cacheGrows_trans)
qed

lemma processNewBlocks_grows:
  assumes "processNewBlocks e lastBlock w = Some (r, lastBlock', w')"
  shows "cacheGrows w w'"
proof -
  obtain r1 w1 where b: "Client_BlockNumber e w = (r1, w1)" by (cases "Client_BlockNumber e w")
  have g1: "cacheGrows w w1" using Client_BlockNumber_frame [OF b] by (simp add: cacheGrows_def)
  show ?thesis
  proof (cases r1)
    case (Inl err)
    then show ?thesis using assms b g1 by (simp add: processNewBlocks_def)
  next
    case (Inr currentBlock)
    show ?thesis
    proof (cases "selectRange lastBlock currentBlock (BatchSize (cfg e))")
      case None
      then show ?thesis using assms b g1 Inr by (simp add: processNewBlocks_def)
    next
      case (Some range)
      obtain fromBlock toBlock where re: "range = (fromBlock, toBlock)" by (cases range)
      from assms b Inr Some re obtain r2 w2 where
        p: "processBlockRange e fromBlock toBlock w1 = Some (r2, w2)"
        by (cases "processBlockRange e fromBlock toBlock w1") (auto simp: processNewBlocks_def)
      have "w' = w2" using assms b Inr Some re p by (cases r2) (simp_all add: processNewBlocks_def)
      then show ?thesis using g1 processBlockRange_grows [OF p] by (auto intro: cacheGrows_trans)
    qed
  qed
qed

lemma v3_getPoolInfo_read_fails:
  assumes "v3PoolCache w a = None"
  shows "(callToken0 e a w = (Inl err, w1) \<longrightarrow>
            v3_getPoolInfo e a w = (Inl (Errorf ''failed to get token0'' (Some err)), w1)) \<and>
         (callToken0 e a w = (Inr t0, w1) \<and> callToken1 e a w1 = (Inl err, w2) \<longrightarrow>
            v3_getPoolInfo e a w = (Inl (Errorf ''failed to get token1'' (Some err)), w2)) \<and>
         (callToken0 e a w = (Inr t0, w1) \<and> callToken1 e a w1 = (Inr t1, w2) \<and>
          callFee e a w2 = (Inl err, w3) \<longrightarrow>
            v3_getPoolInfo e a w = (Inl (Errorf ''failed to get fee'' (Some err)), w3))"
  using assms by (simp add: v3_getPoolInfo_def)

lemma v2_getPoolInfo_read_fails:
  assumes "v2PoolCache w a = None"
  shows "(callToken0 e a w = (Inl err, w1) \<longrightarrow>
            v2_getPoolInfo e a w = (Inl (Errorf ''failed to get token0'' (Some err)), w1)) \<and>
         (callToken0 e a w = (Inr t0, w1) \<and> callToken1 e a w1 = (Inl err, w2) \<longrightarrow>
            v2_getPoolInfo e a w = (Inl (Errorf ''failed to get token1'' (Some err)), w2))"
  using assms by (simp add: v2_getPoolInfo_def)

text \<open>
  C5. For each decoder and each pool address: a lookup of a cached address returns the
  cached entry and leaves the state as it is, so it sends no request; a lookup that
  succeeds leaves the entry in the cache, and the next lookup of that address returns it
  from there; a lookup that fails leaves the cache as it was, and it fails whenever the
  read of token0, of token1 or (V3) of the fee fails, so no partial entry is stored; and
  no lookup, and no poll tick as a whole, changes or removes an entry that is already in
  a cache.
\<close>

theorem C5_pool_metadata_cached_once:
  "(\<forall>info. v3PoolCache w a = Some info \<longrightarrow> v3_getPoolInfo e a w = (Inr info, w)) \<and>
   (\<forall>info. v2PoolCache w a = Some info \<longrightarrow> v2_getPoolInfo e a w = (Inr info, w)) \<and>
   (\<forall>r w'. v3_getPoolInfo e a w = (r, w') \<longrightarrow>
      cacheGrows w w' \<and>
      (\<forall>err. r = Inl err \<longrightarrow> v3PoolCache w' = v3PoolCache w) \<and>
      (\<forall>info. r = Inr info \<longrightarrow>
         v3PoolCache w' a = Some info \<and> v3_getPoolInfo e a w' = (Inr info, w'))) \<and>
   (\<forall>r w'. v2_getPoolInfo e a w = (r, w') \<longrightarrow>
      cacheGrows w w' \<and>
      (\<forall>err. r = Inl err \<longrightarrow> v2PoolCache w' = v2PoolCache w) \<and>
      (\<forall>info. r = Inr info \<longrightarrow>
         v2PoolCache w' a = Some info \<and> v2_getPoolInfo e a w' = (Inr info, w'))) \<and>
   (v3PoolCache w a = None \<longrightarrow>
      (\<forall>err w1. callToken0 e a w = (Inl err, w1) \<longrightarrow>
         v3_getPoolInfo e a w = (Inl (Errorf ''failed to get token0'' (Some err)), w1)) \<and>
      (\<forall>t0 w1 err w2. callToken0 e a w = (Inr t0, w1) \<and> callToken1 e a w1 = (Inl err, w2) \<longrightarrow>
         v3_getPoolInfo e a w = (Inl (Errorf ''failed to get token1'' (Some err)), w2)) \<and>
      (\<forall>t0 w1 t1 w2 err w3. callToken0 e a w = (Inr t0, w1) \<and> callToken1 e a w1 = (Inr t1, w2) \<and>
          callFee e a w2 = (Inl err, w3) \<longrightarrow>
         v3_getPoolInfo e a w = (Inl (Errorf ''failed to get fee'' (Some err)), w3))) \<and>
   (v2PoolCache w a = None \<longrightarrow>
      (\<forall>err w1. callToken0 e a w = (Inl err, w1) \<longrightarrow>
         v2_getPoolInfo e a w = (Inl (Errorf ''failed to get token0'' (Some err)), w1)) \<and>
      (\<forall>t0 w1 err w2. callToken0 e a w = (Inr t0, w1) \<and> callToken1 e a w1 = (Inl err, w2) \<longrightarrow>
         v2_getPoolInfo e a w = (Inl (Errorf ''failed to get token1'' (Some err)), w2))) \<and>
   (\<forall>lastBlock r lastBlock' w'.
      processNewBlocks e lastBlock w = Some (r, lastBlock', w') \<longrightarrow> cacheGrows w w')"
proof (intro conjI)
  show "\<forall>info. v3PoolCache w a = Some info \<longrightarrow> v3_getPoolInfo e a w = (Inr info, w)"
    by (simp add: v3_getPoolInfo_hit)
  show "\<forall>info. v2PoolCache w a = Some info \<longrightarrow> v2_getPoolInfo e a w = (Inr info, w)"
    by (simp add: v2_getPoolInfo_hit)
  show "\<forall>r w'. v3_getPoolInfo e a w = (r, w') \<longrightarrow>
      cacheGrows w w' \<and>
      (\<forall>err. r = Inl err \<longrightarrow> v3PoolCache w' = v3PoolCache w) \<and>
      (\<forall>info. r = Inr info \<longrightarrow>
         v3PoolCache w' a = Some info \<and> v3_getPoolInfo e a w' = (Inr info, w'))"
    using v3_getPoolInfo_grows v3_getPoolInfo_failure v3_getPoolInfo_success by blast
  show "\<forall>r w'. v2_getPoolInfo e a w = (r, w') \<longrightarrow>
      cacheGrows w w' \<and>
      (\<forall>err. r = Inl err \<longrightarrow> v2PoolCache w' = v2PoolCache w) \<and>
      (\<forall>info. r = Inr info \<longrightarrow>
         v2PoolCache w' a = Some info \<and> v2_getPoolInfo e a w' = (Inr info, w'))"
    using v2_getPoolInfo_grows v2_getPoolInfo_failure v2_getPoolInfo_success by blast
  show "v3PoolCache w a = None \<longrightarrow>
      (\<forall>err w1. callToken0 e a w = (Inl err, w1) \<longrightarrow>
         v3_getPoolInfo e a w = (Inl (Errorf ''failed to get token0'' (Some err)), w1)) \<and>
      (\<forall>t0 w1 err w2. callToken0 e a w = (Inr t0, w1) \<and> callToken1 e a w1 = (Inl err, w2) \<longrightarrow>
         v3_getPoolInfo e a w = (Inl (Errorf ''failed to get token1'' (Some err)), w2)) \<and>
      (\<forall>t0 w1 t1 w2 err w3. callToken0 e a w = (Inr t0, w1) \<and> callToken1 e a w1 = (Inr t1, w2) \<and>
          callFee e a w2 = (Inl err, w3) \<longrightarrow>
         v3_getPoolInfo e a w = (Inl (Errorf ''failed to get fee'' (Some err)), w3))"
    using v3_getPoolInfo_read_fails [of w a] by blast
  show "v2PoolCache w a = None \<longrightarrow>
      (\<forall>err w1. callToken0 e a w = (Inl err, w1) \<longrightarrow>
         v2_getPoolInfo e a w = (Inl (Errorf ''failed to get token0'' (Some err)), w1)) \<and>
      (\<forall>t0 w1 err w2. callToken0 e a w = (Inr t0, w1) \<and> callToken1 e a w1 = (Inl err, w2) \<longrightarrow>
         v2_getPoolInfo e a w = (Inl (Errorf ''failed to get token1'' (Some err)), w2))"
    using v2_getPoolInfo_read_fails [of w a] by blast
  show "\<forall>lastBlock r lastBlock' w'.
      processNewBlocks e lastBlock w = Some (r, lastBlock', w') \<longrightarrow> cacheGrows w w'"
    using processNewBlocks_grows by blast
qed

lemma quietEnv_token0:
  "callToken0 quietEnv 0x31 emptyWorld =
     (Inl (Errorf ''failed to call contract'' (Some (NodeError ''execution reverted''))),
      emptyWorld\<lparr>trace := replicate 3 (ReqCallContract 0x31 [0x0d, 0xfe, 0x16, 0x81])\<rparr>)"
  by (simp add: callToken0_def Client_CallContract_def quietEnv_def quietNode_def readmeConfig_def
      defaultConfig_def retryLoop_unfold emptyWorld_def numeral_3_eq_3)

theorem C5_pool_metadata_cached_once_witness:
  "v3_getPoolInfo poolEnv 0x31 emptyWorld = (Inr v3PoolInfo, v3World) \<and>
   v3PoolCache v3World 0x31 = Some v3PoolInfo \<and>
   v3_getPoolInfo poolEnv 0x31 v3World = (Inr v3PoolInfo, v3World) \<and>
   cacheGrows emptyWorld v3World \<and>
   v3PoolCache emptyWorld 0x31 = None \<and>
   callToken0 quietEnv 0x31 emptyWorld =
     (Inl (Errorf ''failed to call contract'' (Some (NodeError ''execution reverted''))),
      emptyWorld\<lparr>trace := replicate 3 (ReqCallContract 0x31 [0x0d, 0xfe, 0x16, 0x81])\<rparr>) \<and>
   v3_getPoolInfo quietEnv 0x31 emptyWorld =
     (Inl (Errorf ''failed to get token0''
        (Some (Errorf ''failed to call contract'' (Some (NodeError ''execution reverted''))))),
      emptyWorld\<lparr>trace := replicate 3 (ReqCallContract 0x31 [0x0d, 0xfe, 0x16, 0x81])\<rparr>) \<and>
   v3PoolCache (emptyWorld\<lparr>trace := replicate 3 (ReqCallContract 0x31 [0x0d, 0xfe, 0x16, 0x81])\<rparr>) =
     v3PoolCache emptyWorld"
proof -
  note ok = C5_pool_metadata_cached_once [of emptyWorld "0x31" poolEnv, THEN conjunct2, THEN conjunct2, THEN conjunct1,
      rule_format, OF poolEnv_getPoolInfo]
  note bad = C5_pool_metadata_cached_once [of emptyWorld "0x31" quietEnv]
  note bad_read = bad [THEN conjunct2, THEN conjunct2, THEN conjunct2, THEN conjunct2,
      THEN conjunct1, rule_format, THEN conjunct1, rule_format]
  note bad_result = bad [THEN conjunct2, THEN conjunct2, THEN conjunct1, rule_format]
  have none: "v3PoolCache emptyWorld 0x31 = None" by (simp add: emptyWorld_def)
  from ok
  have s: "v3PoolCache v3World 0x31 = Some v3PoolInfo \<and>
           v3_getPoolInfo poolEnv 0x31 v3World = (Inr v3PoolInfo, v3World) \<and>
           cacheGrows emptyWorld v3World" by simp
  have f: "v3_getPoolInfo quietEnv 0x31 emptyWorld =
     (Inl (Errorf ''failed to get token0''
        (Some (Errorf ''failed to call contract'' (Some (NodeError ''execution reverted''))))),
      emptyWorld\<lparr>trace := replicate 3 (ReqCallContract 0x31 [0x0d, 0xfe, 0x16, 0x81])\<rparr>)"
    using none quietEnv_token0 by (rule bad_read)
  from bad_result [OF f]
  have "v3PoolCache (emptyWorld\<lparr>trace := replicate 3 (ReqCallContract 0x31 [0x0d, 0xfe, 0x16, 0x81])\<rparr>) =
     v3PoolCache emptyWorld" by simp
  with poolEnv_getPoolInfo s none quietEnv_token0 f show ?thesis by blast
qed

subsection \<open>Gas cost of a finding, end to end\<close>

lemma sample_sorted: "sort_key LogIndex [buyLeg, sellLeg] = [buyLeg, sellLeg]"
  by (simp add: buyLeg_def sellLeg_def sampleSwap_def)

lemma cyclic_sample:
  "detectCyclicArbitrage [buyLeg, sellLeg] =
     Some \<lparr>Arb_TxHash = 7, Arb_BlockNumber = 1, Arbitrageur = 9, Path = [buyLeg, sellLeg],
       TokenStart = WETH, TokenEnd = WETH, AmountIn = 1000000, AmountOut = 1050000,
       Profit = 50000, ProfitToken = WETH, GasUsed = 0, GasPrice = None, NetProfitWei = None\<rparr>"
  unfolding detectCyclicArbitrage_def buildFlows_sample
  by (simp add: Let_def) (simp add: buyLeg_def sampleSwap_def)

lemma hugeGas_addGasInfo:
  "addGasInfo hugeGasEnv 7 arb w =
     (arb\<lparr>GasUsed := 0x8000000000000000, GasPrice := Some 1,
          NetProfitWei := Some (Profit arb + 9223372036854775808)\<rparr>,
      w\<lparr>trace := trace w @ [ReqTransactionReceipt 7, ReqTransactionByHash 7]\<rparr>)"
  by (simp add: addGasInfo_def hugeGasEnv_def hugeGasNode_def quietNode_def defaultConfig_def
      client_defs retryLoop_unfold Let_def)

text \<open>
  C9 (evaluated at the failing input). The two sample swaps form a cyclic and a
  cross-venue finding with gross profit 50000. At a node whose receipt reports a gas used
  of \<open>2^63\<close> and whose transaction has gas price 1, both fetches succeed, and the net
  profit of each finding is \<open>50000 + 2^63\<close>, because \<open>int64(arb.GasUsed)\<close> is \<open>- 2^63\<close>;
  gross profit minus gas used times gas price is \<open>50000 - 2^63\<close>.
\<close>

theorem C9_gas_cost_signed_conversion:
  "DetectArbitrage hugeGasEnv 7 [buyLeg, sellLeg] emptyWorld =
     (Inr [\<lparr>Arb_TxHash = 7, Arb_BlockNumber = 1, Arbitrageur = 9, Path = [buyLeg, sellLeg],
            TokenStart = WETH, TokenEnd = WETH, AmountIn = 1000000, AmountOut = 1050000,
            Profit = 50000, ProfitToken = WETH, GasUsed = 0x8000000000000000, GasPrice = Some 1,
            NetProfitWei = Some 9223372036854825808\<rparr>,
           \<lparr>Arb_TxHash = 7, Arb_BlockNumber = 1, Arbitrageur = 9, Path = [buyLeg, sellLeg],
            TokenStart = WETH, TokenEnd = WETH, AmountIn = 1000000, AmountOut = 1050000,
            Profit = 50000, ProfitToken = WETH, GasUsed = 0x8000000000000000, GasPrice = Some 1,
            NetProfitWei = Some 9223372036854825808\<rparr>],
      emptyWorld\<lparr>trace := [ReqTransactionReceipt 7, ReqTransactionByHash 7,
                              ReqTransactionReceipt 7, ReqTransactionByHash 7]\<rparr>) \<and>
   50000 - int (unat (0x8000000000000000 :: u64)) * 1 = - 9223372036854725808"
proof -
  have h: "AddressHex hugeGasEnv = knownHex" by (simp add: hugeGasEnv_def)
  show ?thesis
    unfolding DetectArbitrage_def Let_def sample_sorted h cyclic_sample crossVenue_sample
    by (simp add: hugeGas_addGasInfo emptyWorld_def)
qed

end
